theory Spec2Isabelle
  imports Main "HOL-Library.Word"
begin

unbundle bit_operations_syntax

section \<open>JSON values and \<open>JSON.stringify\<close>\<close>

text \<open>
  The payloads of an audit entry (\<open>inputs\<close>, \<open>outputs\<close>) have the TypeScript type
  \<open>Record<string, unknown>\<close>; what is stored and hashed is their JSON text. A JSON
  value is modelled as a datatype. Strings are byte strings (the UTF-8 encoding of the
  JavaScript string). Numbers are restricted to integers, whose JSON text is their
  decimal representation. An object is the list of its own properties in enumeration
  order (the order of \<open>Object.entries\<close> and of \<open>JSON.stringify\<close>); the keys of an
  object are distinct. An object that \<open>JSON.parse\<close> built may have an own property
  named \<open>__proto__\<close>.
\<close>

datatype json =
    JNull
  | JBool bool
  | JNum int
  | JStr string
  | JArr "json list"
  | JObj "(string \<times> json) list"

definition digitChar :: "nat \<Rightarrow> char" where
  "digitChar n = ''0123456789abcdef'' ! (n mod 16)"

function showNat :: "nat \<Rightarrow> string" where
  "showNat n = (if n < 10 then [digitChar n] else showNat (n div 10) @ [digitChar (n mod 10)])"
  by pat_completeness auto
termination
  by (relation "measure (\<lambda>n. n)") auto

definition showInt :: "int \<Rightarrow> string" where
  "showInt i = (if i < 0 then ''-'' @ showNat (nat (- i)) else showNat (nat i))"

text \<open>
  The escaping of \<open>JSON.stringify\<close> for one character: the quotation mark, the
  backslash and the control characters below U+0020; everything else is copied.
\<close>

definition escapeChar :: "char \<Rightarrow> string" where
  "escapeChar c =
     (let n = (of_char c :: nat) in
      if n = 34 then [CHR 0x5C, CHR 0x22]
      else if n = 92 then [CHR 0x5C, CHR 0x5C]
      else if n = 8 then [CHR 0x5C, CHR ''b'']
      else if n = 12 then [CHR 0x5C, CHR ''f'']
      else if n = 10 then [CHR 0x5C, CHR ''n'']
      else if n = 13 then [CHR 0x5C, CHR ''r'']
      else if n = 9 then [CHR 0x5C, CHR ''t'']
      else if n < 32 then [CHR 0x5C, CHR ''u'', CHR ''0'', CHR ''0'', digitChar (n div 16), digitChar n]
      else [c])"

definition quote :: "string \<Rightarrow> string" where
  "quote s = [CHR 0x22] @ concat (map escapeChar s) @ [CHR 0x22]"

fun joinComma :: "string list \<Rightarrow> string" where
  "joinComma [] = []"
| "joinComma [s] = s"
| "joinComma (s # t # rest) = s @ '','' @ joinComma (t # rest)"

fun stringify :: "json \<Rightarrow> string"
  and stringifyElements :: "json list \<Rightarrow> string list"
  and stringifyMembers :: "(string \<times> json) list \<Rightarrow> string list" where
  "stringify JNull = ''null''"
| "stringify (JBool b) = (if b then ''true'' else ''false'')"
| "stringify (JNum i) = showInt i"
| "stringify (JStr s) = quote s"
| "stringify (JArr vs) = ''['' @ joinComma (stringifyElements vs) @ '']''"
| "stringify (JObj kvs) = ''{'' @ joinComma (stringifyMembers kvs) @ ''}''"
| "stringifyElements [] = []"
| "stringifyElements (v # vs) = stringify v # stringifyElements vs"
| "stringifyMembers [] = []"
| "stringifyMembers ((k, v) # kvs) = (quote k @ '':'' @ stringify v) # stringifyMembers kvs"

section \<open>SHA-256\<close>

text \<open>
  \<open>crypto.createHash('sha256').update(content).digest('hex')\<close> is the SHA-256 digest
  of FIPS 180-4 over the UTF-8 bytes of \<open>content\<close>, printed as 64 lowercase
  hexadecimal digits. It is a library function of the platform; it is modelled here so
  that hashes of concrete entries can be computed.
\<close>

type_synonym w32 = "32 word"

type_synonym hstate = "w32 \<times> w32 \<times> w32 \<times> w32 \<times> w32 \<times> w32 \<times> w32 \<times> w32"

definition rotr :: "nat \<Rightarrow> w32 \<Rightarrow> w32" where
  "rotr n x = drop_bit n x OR push_bit (32 - n) x"

definition Ch :: "w32 \<Rightarrow> w32 \<Rightarrow> w32 \<Rightarrow> w32" where
  "Ch x y z = (x AND y) XOR (NOT x AND z)"

definition Maj :: "w32 \<Rightarrow> w32 \<Rightarrow> w32 \<Rightarrow> w32" where
  "Maj x y z = (x AND y) XOR (x AND z) XOR (y AND z)"

definition bsig0 :: "w32 \<Rightarrow> w32" where
  "bsig0 x = rotr 2 x XOR rotr 13 x XOR rotr 22 x"

definition bsig1 :: "w32 \<Rightarrow> w32" where
  "bsig1 x = rotr 6 x XOR rotr 11 x XOR rotr 25 x"

definition ssig0 :: "w32 \<Rightarrow> w32" where
  "ssig0 x = rotr 7 x XOR rotr 18 x XOR drop_bit 3 x"

definition ssig1 :: "w32 \<Rightarrow> w32" where
  "ssig1 x = rotr 17 x XOR rotr 19 x XOR drop_bit 10 x"

definition sha256_K :: "w32 list" where
  "sha256_K = [
    1116352408, 1899447441, 3049323471, 3921009573, 961987163, 1508970993, 2453635748, 2870763221,
    3624381080, 310598401, 607225278, 1426881987, 1925078388, 2162078206, 2614888103, 3248222580,
    3835390401, 4022224774, 264347078, 604807628, 770255983, 1249150122, 1555081692, 1996064986,
    2554220882, 2821834349, 2952996808, 3210313671, 3336571891, 3584528711, 113926993, 338241895,
    666307205, 773529912, 1294757372, 1396182291, 1695183700, 1986661051, 2177026350, 2456956037,
    2730485921, 2820302411, 3259730800, 3345764771, 3516065817, 3600352804, 4094571909, 275423344,
    430227734, 506948616, 659060556, 883997877, 958139571, 1322822218, 1537002063, 1747873779,
    1955562222, 2024104815, 2227730452, 2361852424, 2428436474, 2756734187, 3204031479, 3329325298]"

definition sha256_H0 :: hstate where
  "sha256_H0 = (1779033703, 3144134277, 1013904242, 2773480762,
                1359893119, 2600822924, 528734635, 1541459225)"

text \<open>The \<open>n\<close> low-order bytes of a number, most significant first.\<close>

fun be_bytes :: "nat \<Rightarrow> nat \<Rightarrow> nat list" where
  "be_bytes 0 v = []"
| "be_bytes (Suc n) v = be_bytes n (v div 256) @ [v mod 256]"

text \<open>Padding: the byte 0x80, zero bytes up to 56 modulo 64, the bit length in 64 bits.\<close>

definition sha256_pad :: "nat list \<Rightarrow> nat list" where
  "sha256_pad bs =
     (let l = length bs; k = (119 - l mod 64) mod 64
      in bs @ [128] @ replicate k 0 @ be_bytes 8 (8 * l))"

definition be_word :: "nat list \<Rightarrow> w32" where
  "be_word bs = foldl (\<lambda>acc b. push_bit 8 acc OR of_nat b) 0 bs"

fun chunks :: "nat \<Rightarrow> 'a list \<Rightarrow> 'a list list" where
  "chunks n [] = []"
| "chunks n xs = (if n = 0 then [xs] else take n xs # chunks n (drop n xs))"

text \<open>
  The message schedule extends the 16 words of a block to 64. The list is kept newest
  first, so that \<open>W\<^sub>t\<^sub>-\<^sub>2\<close>, \<open>W\<^sub>t\<^sub>-\<^sub>7\<close>, \<open>W\<^sub>t\<^sub>-\<^sub>1\<^sub>5\<close> and \<open>W\<^sub>t\<^sub>-\<^sub>1\<^sub>6\<close> are at positions
  1, 6, 14 and 15.
\<close>

fun schedule :: "nat \<Rightarrow> w32 list \<Rightarrow> w32 list" where
  "schedule 0 ws = ws"
| "schedule (Suc n) ws =
     schedule n ((ssig1 (ws ! 1) + ws ! 6 + ssig0 (ws ! 14) + ws ! 15) # ws)"

fun round256 :: "hstate \<Rightarrow> (w32 \<times> w32) \<Rightarrow> hstate" where
  "round256 (a, b, c, d, e, f, g, h) (k, w) =
     (let t1 = h + bsig1 e + Ch e f g + k + w;
          t2 = bsig0 a + Maj a b c
      in (t1 + t2, a, b, c, d + t1, e, f, g))"

fun addState :: "hstate \<Rightarrow> hstate \<Rightarrow> hstate" where
  "addState (a, b, c, d, e, f, g, h) (a', b', c', d', e', f', g', h') =
     (a + a', b + b', c + c', d + d', e + e', f + f', g + g', h + h')"

definition compress :: "hstate \<Rightarrow> nat list \<Rightarrow> hstate" where
  "compress hs block =
     (let ws = rev (schedule 48 (rev (map be_word (chunks 4 block))))
      in addState hs (foldl round256 hs (zip sha256_K ws)))"

definition sha256 :: "nat list \<Rightarrow> hstate" where
  "sha256 bs = foldl compress sha256_H0 (chunks 64 (sha256_pad bs))"

definition hex32 :: "w32 \<Rightarrow> string" where
  "hex32 w = map (\<lambda>i. digitChar (unat (drop_bit (28 - 4 * i) w AND 15))) [0..<8]"

fun hexState :: "hstate \<Rightarrow> string" where
  "hexState (a, b, c, d, e, f, g, h) =
     hex32 a @ hex32 b @ hex32 c @ hex32 d @ hex32 e @ hex32 f @ hex32 g @ hex32 h"

definition sha256_hex :: "string \<Rightarrow> string" where
  "sha256_hex s = hexState (sha256 (map of_char s))"

section \<open>The entry model (\<open>types.ts\<close>)\<close>

record ComplianceInfo =
  regulations :: "string list"
  riskFlags :: "string list"
  humanReviewRequired :: bool
  checksPerformed :: "string list option"
  exemptions :: "string list option"

text \<open>
  An optional property (\<open>sessionId?: string\<close>) is an \<open>option\<close>: \<open>None\<close> stands for a
  property that is absent or \<open>undefined\<close>, which \<open>JSON.stringify\<close> treats alike.
\<close>

record AuditEntry =
  auditId :: string
  timestamp :: string
  tool :: string
  command :: string
  toolVersion :: string
  inputs :: "(string \<times> json) list"
  outputs :: "(string \<times> json) list"
  rationale :: string
  warnings :: "string list"
  compliance :: ComplianceInfo
  operator :: string
  sessionId :: "string option"
  parentAuditId :: "string option"
  loanId :: "string option"
  durationMs :: "int option"
  previousHash :: "string option"
  entryHash :: "string option"

section \<open>The hash of an entry (\<open>logger.ts\<close>)\<close>

definition strings :: "string list \<Rightarrow> json" where
  "strings xs = JArr (map JStr xs)"

text \<open>A property whose value is \<open>undefined\<close> is left out of the JSON text.\<close>

fun optMember :: "string \<Rightarrow> json option \<Rightarrow> (string \<times> json) list" where
  "optMember k None = []"
| "optMember k (Some v) = [(k, v)]"

text \<open>
  The \<open>compliance\<close> object of an entry as JSON; its optional members are serialised in
  the order of their declaration.
\<close>

definition complianceJson :: "ComplianceInfo \<Rightarrow> json" where
  "complianceJson c =
     JObj ([(''regulations'', strings (regulations c)),
            (''riskFlags'', strings (riskFlags c)),
            (''humanReviewRequired'', JBool (humanReviewRequired c))]
           @ optMember ''checksPerformed'' (map_option strings (checksPerformed c))
           @ optMember ''exemptions'' (map_option strings (exemptions c)))"

text \<open>
  The object literal that \<open>computeEntryHash\<close> passes to \<open>JSON.stringify\<close>: sixteen
  properties in a fixed order. \<open>entryHash\<close> is not among them.
\<close>

definition hashContent :: "AuditEntry \<Rightarrow> json" where
  "hashContent entry =
     JObj ([(''auditId'', JStr (auditId entry)),
            (''timestamp'', JStr (timestamp entry)),
            (''tool'', JStr (tool entry)),
            (''command'', JStr (command entry)),
            (''toolVersion'', JStr (toolVersion entry)),
            (''inputs'', JObj (inputs entry)),
            (''outputs'', JObj (outputs entry)),
            (''rationale'', JStr (rationale entry)),
            (''warnings'', strings (warnings entry)),
            (''compliance'', complianceJson (compliance entry)),
            (''operator'', JStr (operator entry))]
           @ optMember ''sessionId'' (map_option JStr (sessionId entry))
           @ optMember ''parentAuditId'' (map_option JStr (parentAuditId entry))
           @ optMember ''loanId'' (map_option JStr (loanId entry))
           @ optMember ''durationMs'' (map_option JNum (durationMs entry))
           @ optMember ''previousHash'' (map_option JStr (previousHash entry)))"

definition computeEntryHash :: "AuditEntry \<Rightarrow> string" where
  "computeEntryHash entry = sha256_hex (stringify (hashContent entry))"

section \<open>Sanitising inputs (\<open>logger.ts\<close>)\<close>

text \<open>
  \<open>String.prototype.toLowerCase\<close>, on the UTF-8 bytes of the string. An ASCII capital
  becomes the small letter. Two characters outside ASCII have a lower-case form with
  an ASCII letter in it: the Kelvin sign U+212A (bytes E2 84 AA) becomes \<open>k\<close>, and
  U+0130 (bytes C4 B0) becomes \<open>i\<close> followed by U+0307 (bytes CC 87). Every other
  character outside ASCII is copied: its lower-case form is outside ASCII as well, so
  that the occurrences of an ASCII word in the result do not depend on it.
\<close>

definition lowerChar :: "char \<Rightarrow> char" where
  "lowerChar c = (let n = (of_char c :: nat) in if 65 \<le> n \<and> n \<le> 90 then char_of (n + 32) else c)"

fun toLowerCase :: "string \<Rightarrow> string" where
  "toLowerCase (a # b # c # rest) =
     (if a = CHR 0xE2 \<and> b = CHR 0x84 \<and> c = CHR 0xAA then CHR ''k'' # toLowerCase rest
      else if a = CHR 0xC4 \<and> b = CHR 0xB0
        then CHR ''i'' # CHR 0xCC # CHR 0x87 # toLowerCase (c # rest)
      else lowerChar a # toLowerCase (b # c # rest))"
| "toLowerCase [a, b] =
     (if a = CHR 0xC4 \<and> b = CHR 0xB0 then [CHR ''i'', CHR 0xCC, CHR 0x87]
      else lowerChar a # toLowerCase [b])"
| "toLowerCase [a] = [lowerChar a]"
| "toLowerCase [] = []"

fun startsWith :: "string \<Rightarrow> string \<Rightarrow> bool" where
  "startsWith s [] = True"
| "startsWith [] (p # ps) = False"
| "startsWith (c # cs) (p # ps) = (c = p \<and> startsWith cs ps)"

text \<open>\<open>String.prototype.includes\<close>: the second string occurs in the first.\<close>

fun includesStr :: "string \<Rightarrow> string \<Rightarrow> bool" where
  "includesStr [] sub = startsWith [] sub"
| "includesStr (c # cs) sub = (startsWith (c # cs) sub \<or> includesStr cs sub)"

definition sensitiveKeys :: "string list" where
  "sensitiveKeys =
     [''ssn'', ''social_security'', ''socialSecurity'', ''ssn_last4'', ''password'',
      ''secret'', ''token'', ''api_key'', ''apiKey'', ''account_number'', ''accountNumber'',
      ''routing_number'', ''routingNumber'']"

definition isSensitive :: "string \<Rightarrow> bool" where
  "isSensitive key =
     (let lowerKey = toLowerCase key
      in list_ex (\<lambda>sk. includesStr lowerKey (toLowerCase sk)) sensitiveKeys)"

text \<open>
  \<open>Object.entries\<close> of an array: its elements under the keys \<open>"0"\<close>, \<open>"1"\<close>, ...
\<close>

definition arrayEntries :: "json list \<Rightarrow> (string \<times> json) list" where
  "arrayEntries vs = zip (map showNat [0..<length vs]) vs"

text \<open>
  The assignment \<open>sanitized[key] = v\<close> in the loop of \<open>sanitizeInputs\<close>. The keys of the
  argument are distinct, so \<open>sanitized\<close> has no property \<open>key\<close> yet and the assignment
  adds one, before those that the rest of the loop adds. The key \<open>__proto__\<close> is the
  exception: \<open>sanitized\<close> is an ordinary object, the assignment reaches the accessor
  \<open>Object.prototype.__proto__\<close>, which sets the prototype of \<open>sanitized\<close> (or does
  nothing, for a value that is neither an object nor \<open>null\<close>), and no own property is
  added. An inherited property is not seen by \<open>Object.entries\<close> or \<open>JSON.stringify\<close>.
\<close>

definition assignProp :: "string \<Rightarrow> json \<Rightarrow> (string \<times> json) list \<Rightarrow> (string \<times> json) list" where
  "assignProp key v later = (if key = ''__proto__'' then later else (key, v) # later)"

text \<open>
  \<open>sanitizeInputs\<close> builds a fresh object from the entries of its argument. The test
  \<open>typeof value === 'object' && value !== null\<close> holds for objects and for arrays, and
  the recursive call then reads an array through \<open>Object.entries\<close>.
\<close>

function sanitizeInputs :: "(string \<times> json) list \<Rightarrow> (string \<times> json) list" where
  "sanitizeInputs [] = []"
| "sanitizeInputs ((key, value) # rest) =
     assignProp key
       (if isSensitive key then JStr ''[REDACTED]''
        else (case value of
                JObj kvs \<Rightarrow> JObj (sanitizeInputs kvs)
              | JArr vs \<Rightarrow> JObj (sanitizeInputs (arrayEntries vs))
              | _ \<Rightarrow> value))
       (sanitizeInputs rest)"
  by pat_completeness auto
termination
proof (relation "measure (\<lambda>kvs. sum_list (map (\<lambda>kv. 2 * size (snd kv) + 1) kvs))")
  show "wf (measure (\<lambda>kvs. sum_list (map (\<lambda>kv. 2 * size (snd kv) + 1) kvs)))"
    by simp
next
  fix key :: string and "value" rest kvs
  assume "value = JObj kvs"
  have "sum_list (map (\<lambda>kv. 2 * size (snd kv) + 1) ps)
          \<le> 2 * size_list (size_prod (\<lambda>_. 0) size) ps" for ps :: "(string \<times> json) list"
    by (induction ps) auto
  from this [of kvs] show "(kvs, (key, value) # rest)
      \<in> measure (\<lambda>kvs. sum_list (map (\<lambda>kv. 2 * size (snd kv) + 1) kvs))"
    using \<open>value = JObj kvs\<close> by simp
next
  fix key :: string and "value" rest vs
  assume "value = JArr vs"
  have "sum_list (map (\<lambda>kv. 2 * size (snd kv) + 1) (zip ks us))
          \<le> 2 * size_list size us" for ks :: "string list" and us :: "json list"
  proof (induction us arbitrary: ks)
    case Nil
    show ?case by simp
  next
    case (Cons u us)
    show ?case
    proof (cases ks)
      case Nil
      then show ?thesis by simp
    next
      case (Cons k ks')
      with Cons.IH [of ks'] show ?thesis by simp
    qed
  qed
  from this [of "map showNat [0..<length vs]" vs] show "(arrayEntries vs, (key, value) # rest)
      \<in> measure (\<lambda>kvs. sum_list (map (\<lambda>kv. 2 * size (snd kv) + 1) kvs))"
    using \<open>value = JArr vs\<close> by (simp add: arrayEntries_def)
next
  fix key :: string and "value" :: json and rest :: "(string \<times> json) list"
  show "(rest, (key, value) # rest)
      \<in> measure (\<lambda>kvs. sum_list (map (\<lambda>kv. 2 * size (snd kv) + 1) kvs))"
    by simp
qed

section \<open>The file storage (\<open>lib/storage/file.ts\<close>)\<close>

text \<open>
  \<open>FileStorage\<close> keeps one JSON text per line. \<open>readAllEntries\<close> is modelled on the
  lines of the file, as \<open>readline\<close> yields them; \<open>JSON.parse\<close> is a parameter
  (\<open>None\<close> when it throws; a line that it accepts is taken to hold an entry), and the
  messages written by \<open>console.error\<close> are returned with the entries. A file that does
  not exist is \<open>None\<close>.
\<close>

text \<open>
  The characters that \<open>String.prototype.trim\<close> removes, in UTF-8: the white space and
  line terminators of ECMAScript, which are U+0009 to U+000D, U+0020, U+00A0, U+1680,
  U+2000 to U+200A, U+2028, U+2029, U+202F, U+205F, U+3000 and U+FEFF.
\<close>

definition whiteSpace :: "string list" where
  "whiteSpace =
     [[CHR 0x09], [CHR 0x0A], [CHR 0x0B], [CHR 0x0C], [CHR 0x0D], [CHR 0x20],
      [CHR 0xC2, CHR 0xA0], [CHR 0xE1, CHR 0x9A, CHR 0x80],
      [CHR 0xE2, CHR 0x80, CHR 0x80], [CHR 0xE2, CHR 0x80, CHR 0x81],
      [CHR 0xE2, CHR 0x80, CHR 0x82], [CHR 0xE2, CHR 0x80, CHR 0x83],
      [CHR 0xE2, CHR 0x80, CHR 0x84], [CHR 0xE2, CHR 0x80, CHR 0x85],
      [CHR 0xE2, CHR 0x80, CHR 0x86], [CHR 0xE2, CHR 0x80, CHR 0x87],
      [CHR 0xE2, CHR 0x80, CHR 0x88], [CHR 0xE2, CHR 0x80, CHR 0x89],
      [CHR 0xE2, CHR 0x80, CHR 0x8A], [CHR 0xE2, CHR 0x80, CHR 0xA8],
      [CHR 0xE2, CHR 0x80, CHR 0xA9], [CHR 0xE2, CHR 0x80, CHR 0xAF],
      [CHR 0xE2, CHR 0x81, CHR 0x9F], [CHR 0xE3, CHR 0x80, CHR 0x80],
      [CHR 0xEF, CHR 0xBB, CHR 0xBF]]"

text \<open>Removing, from the front of a string, every leading occurrence of the given words.\<close>

function dropPrefixes :: "string list \<Rightarrow> string \<Rightarrow> string" where
  "dropPrefixes ws s =
     (case find (\<lambda>w. w \<noteq> [] \<and> startsWith s w) ws of
        Some w \<Rightarrow> dropPrefixes ws (drop (length w) s)
      | None \<Rightarrow> s)"
  by pat_completeness auto
termination
proof (relation "measure (\<lambda>(ws, s). length s)")
  show "wf (measure (\<lambda>(ws, s). length s))" by simp
next
  fix ws :: "string list" and s w :: string
  assume "find (\<lambda>w. w \<noteq> [] \<and> startsWith s w) ws = Some w"
  then have "w \<noteq> []" and "startsWith s w"
    by (auto simp: find_Some_iff)
  then have "s \<noteq> []" by (cases s; cases w) simp_all
  with \<open>w \<noteq> []\<close> show "((ws, drop (length w) s), (ws, s)) \<in> measure (\<lambda>(ws, s). length s)"
    by simp
qed

declare dropPrefixes.simps [simp del]

text \<open>\<open>String.prototype.trim\<close>: the white space is removed at both ends.\<close>

definition trim :: "string \<Rightarrow> string" where
  "trim s = rev (dropPrefixes (map rev whiteSpace) (rev (dropPrefixes whiteSpace s)))"

definition readLine :: "(string \<Rightarrow> AuditEntry option) \<Rightarrow> AuditEntry list \<times> string list
    \<Rightarrow> string \<Rightarrow> AuditEntry list \<times> string list" where
  "readLine parse acc line =
     (if trim line \<noteq> [] then
        (case parse line of
           Some entry \<Rightarrow> (fst acc @ [entry], snd acc)
         | None \<Rightarrow> (fst acc, snd acc @ [''Warning: Invalid JSON line in audit log: '' @ line]))
      else acc)"

definition readAllEntries :: "(string \<Rightarrow> AuditEntry option) \<Rightarrow> string list option
    \<Rightarrow> AuditEntry list \<times> string list" where
  "readAllEntries parse file =
     (case file of
        None \<Rightarrow> ([], [])
      | Some lines \<Rightarrow> foldl (readLine parse) ([], []) lines)"

text \<open>
  The operations of the storage start from the result of \<open>readAllEntries\<close>. They are
  modelled on that list of entries, in storage order; \<open>append\<close> adds the entry as the
  last one (the line it writes is the JSON text of the entry, which is read back as
  the same entry).
\<close>

definition appendEntry :: "AuditEntry \<Rightarrow> AuditEntry list \<Rightarrow> AuditEntry list" where
  "appendEntry entry entries = entries @ [entry]"

definition getLastEntry :: "AuditEntry list \<Rightarrow> AuditEntry option" where
  "getLastEntry entries =
     (if length entries > 0 then Some (entries ! (length entries - 1)) else None)"

definition getById :: "AuditEntry list \<Rightarrow> string \<Rightarrow> AuditEntry option" where
  "getById entries ident = find (\<lambda>e. auditId e = ident) entries"

text \<open>
  \<open>new Date(s).getTime()\<close> is a parameter \<open>getTime\<close>; \<open>None\<close> stands for \<open>NaN\<close>,
  and a comparison with \<open>NaN\<close> is false.
\<close>

fun timeGe :: "int option \<Rightarrow> int option \<Rightarrow> bool" where
  "timeGe (Some a) (Some b) = (a \<ge> b)"
| "timeGe _ _ = False"

fun timeLe :: "int option \<Rightarrow> int option \<Rightarrow> bool" where
  "timeLe (Some a) (Some b) = (a \<le> b)"
| "timeLe _ _ = False"

text \<open>A string option in a condition: \<open>undefined\<close> and the empty string are falsy.\<close>

fun truthy :: "string option \<Rightarrow> bool" where
  "truthy None = False"
| "truthy (Some s) = (s \<noteq> [])"

text \<open>\<open>if (x) { v = f(x, v) }\<close> for an optional string \<open>x\<close>.\<close>

fun whenTruthy :: "string option \<Rightarrow> (string \<Rightarrow> 'a \<Rightarrow> 'a) \<Rightarrow> 'a \<Rightarrow> 'a" where
  "whenTruthy None f v = v"
| "whenTruthy (Some s) f v = (if s \<noteq> [] then f s v else v)"

record AuditQueryOptions =
  q_loanId :: "string option"
  q_tool :: "string option"
  q_command :: "string option"
  q_operator :: "string option"
  q_sessionId :: "string option"
  q_startDate :: "string option"
  q_endDate :: "string option"
  q_hasRiskFlags :: "bool option"
  q_humanReviewRequired :: "bool option"
  q_limit :: "int option"
  q_offset :: "int option"

text \<open>\<open>Array.prototype.slice(start, end)\<close>, with its rule for negative indices.\<close>

definition slice :: "int \<Rightarrow> int \<Rightarrow> 'a list \<Rightarrow> 'a list" where
  "slice start stop xs =
     (let n = int (length xs);
          k = (if start < 0 then max (n + start) 0 else min start n);
          final = (if stop < 0 then max (n + stop) 0 else min stop n)
      in take (nat (final - k)) (drop (nat k) xs))"

text \<open>
  \<open>x || d\<close> on a number: \<open>undefined\<close>, \<open>NaN\<close> and \<open>0\<close> give the default. A number
  option is \<open>None\<close> when it is \<open>undefined\<close> or \<open>NaN\<close>, and an integer otherwise.
\<close>

fun orDefault :: "int option \<Rightarrow> int \<Rightarrow> int" where
  "orDefault None d = d"
| "orDefault (Some n) d = (if n = 0 then d else n)"

definition query :: "(string \<Rightarrow> int option) \<Rightarrow> AuditEntry list \<Rightarrow> AuditQueryOptions
    \<Rightarrow> AuditEntry list" where
  "query getTime entries options =
     (let filtered = entries;
          filtered = whenTruthy (q_loanId options)
                       (\<lambda>v. filter (\<lambda>e. loanId e = Some v)) filtered;
          filtered = whenTruthy (q_tool options)
                       (\<lambda>v. filter (\<lambda>e. tool e = v)) filtered;
          filtered = whenTruthy (q_command options)
                       (\<lambda>v. filter (\<lambda>e. command e = v)) filtered;
          filtered = whenTruthy (q_operator options)
                       (\<lambda>v. filter (\<lambda>e. operator e = v)) filtered;
          filtered = whenTruthy (q_sessionId options)
                       (\<lambda>v. filter (\<lambda>e. sessionId e = Some v)) filtered;
          filtered = whenTruthy (q_startDate options)
                       (\<lambda>v. let start = getTime v
                            in filter (\<lambda>e. timeGe (getTime (timestamp e)) start)) filtered;
          filtered = whenTruthy (q_endDate options)
                       (\<lambda>v. let endTime = getTime v
                            in filter (\<lambda>e. timeLe (getTime (timestamp e)) endTime)) filtered;
          filtered = (if q_hasRiskFlags options = Some True
                      then filter (\<lambda>e. length (riskFlags (compliance e)) > 0) filtered
                      else filtered);
          filtered = (case q_humanReviewRequired options of
                        Some wanted \<Rightarrow>
                          filter (\<lambda>e. humanReviewRequired (compliance e) = wanted) filtered
                      | None \<Rightarrow> filtered);
          offset = orDefault (q_offset options) 0;
          limit = orDefault (q_limit options) (int (length filtered))
      in slice offset (offset + limit) filtered)"

definition count :: "(string \<Rightarrow> int option) \<Rightarrow> AuditEntry list \<Rightarrow> AuditQueryOptions option
    \<Rightarrow> nat" where
  "count getTime entries options =
     (case options of
        Some opts \<Rightarrow> length (query getTime entries opts)
      | None \<Rightarrow> length entries)"

record IntegrityFailure =
  f_auditId :: string
  f_timestamp :: string
  reason :: string
  expectedHash :: "string option"
  actualHash :: "string option"

record IntegrityResult =
  valid :: bool
  entriesChecked :: nat
  validEntries :: nat
  invalidEntries :: nat
  failures :: "IntegrityFailure list"

text \<open>
  The loop of \<open>verifyIntegrity\<close> over \<open>toCheck\<close>. Every parsed entry is an object of
  its own, so \<open>entries.indexOf(entry)\<close> is the position of \<open>entry\<close> in the full list;
  \<open>toCheck\<close> therefore carries each entry with that position. The two accumulators are
  \<open>failures\<close> and \<open>validEntries\<close>; \<open>continue\<close> is the recursive call on the rest.
\<close>

fun verifyLoop :: "AuditEntry list \<Rightarrow> (nat \<times> AuditEntry) list \<Rightarrow> IntegrityFailure list \<Rightarrow> nat
    \<Rightarrow> IntegrityFailure list \<times> nat" where
  "verifyLoop entries [] fails validCount = (fails, validCount)"
| "verifyLoop entries ((entryIndex, entry) # rest) fails validCount =
     (if entryIndex > 0 \<and> previousHash entry \<noteq> entryHash (entries ! (entryIndex - 1)) then
        verifyLoop entries rest
          (fails @ [\<lparr>f_auditId = auditId entry, f_timestamp = timestamp entry,
                     reason = ''Previous hash mismatch'',
                     expectedHash = entryHash (entries ! (entryIndex - 1)),
                     actualHash = previousHash entry\<rparr>])
          validCount
      else
        (let computedHash = computeEntryHash entry in
         if Some computedHash \<noteq> entryHash entry then
           verifyLoop entries rest
             (fails @ [\<lparr>f_auditId = auditId entry, f_timestamp = timestamp entry,
                        reason = ''Entry hash mismatch - possible tampering'',
                        expectedHash = entryHash entry,
                        actualHash = Some computedHash\<rparr>])
             validCount
         else verifyLoop entries rest fails (validCount + 1)))"

definition indexed :: "'a list \<Rightarrow> (nat \<times> 'a) list" where
  "indexed xs = zip [0..<length xs] xs"

definition verifyIntegrity :: "(string \<Rightarrow> int option) \<Rightarrow> AuditEntry list \<Rightarrow> string option
    \<Rightarrow> IntegrityResult" where
  "verifyIntegrity getTime entries fromDate =
     (let toCheck = whenTruthy fromDate
                      (\<lambda>v. let fromTime = getTime v
                           in filter (\<lambda>(i, e). timeGe (getTime (timestamp e)) fromTime))
                      (indexed entries);
          (fails, validCount) = verifyLoop entries toCheck [] 0
      in \<lparr>valid = (length fails = 0),
          entriesChecked = length toCheck,
          validEntries = validCount,
          invalidEntries = length fails,
          failures = fails\<rparr>)"

text \<open>
  The line that \<open>append\<close> writes is the JSON text of the entry: the properties of
  \<open>entryWithoutHash\<close> in the order of the object literal in \<open>log\<close>, then
  \<open>entryHash\<close>.
\<close>

definition entryJson :: "AuditEntry \<Rightarrow> json" where
  "entryJson entry =
     JObj ([(''auditId'', JStr (auditId entry)),
            (''timestamp'', JStr (timestamp entry)),
            (''tool'', JStr (tool entry)),
            (''command'', JStr (command entry)),
            (''toolVersion'', JStr (toolVersion entry)),
            (''inputs'', JObj (inputs entry)),
            (''outputs'', JObj (outputs entry)),
            (''rationale'', JStr (rationale entry)),
            (''warnings'', strings (warnings entry)),
            (''compliance'', complianceJson (compliance entry)),
            (''operator'', JStr (operator entry))]
           @ optMember ''sessionId'' (map_option JStr (sessionId entry))
           @ optMember ''parentAuditId'' (map_option JStr (parentAuditId entry))
           @ optMember ''loanId'' (map_option JStr (loanId entry))
           @ optMember ''durationMs'' (map_option JNum (durationMs entry))
           @ optMember ''previousHash'' (map_option JStr (previousHash entry))
           @ optMember ''entryHash'' (map_option JStr (entryHash entry)))"

definition appendLine :: "AuditEntry \<Rightarrow> string list \<Rightarrow> string list" where
  "appendLine entry lines = lines @ [stringify (entryJson entry)]"

text \<open>
  The operations of the storage on a file: each one reads all entries and then works
  on them.
\<close>

definition queryFile :: "(string \<Rightarrow> int option) \<Rightarrow> (string \<Rightarrow> AuditEntry option)
    \<Rightarrow> string list option \<Rightarrow> AuditQueryOptions \<Rightarrow> AuditEntry list" where
  "queryFile getTime parse file options =
     (let entries = fst (readAllEntries parse file) in query getTime entries options)"

definition countFile :: "(string \<Rightarrow> int option) \<Rightarrow> (string \<Rightarrow> AuditEntry option)
    \<Rightarrow> string list option \<Rightarrow> AuditQueryOptions option \<Rightarrow> nat" where
  "countFile getTime parse file options =
     (case options of
        Some opts \<Rightarrow> length (queryFile getTime parse file opts)
      | None \<Rightarrow> length (fst (readAllEntries parse file)))"

definition verifyIntegrityFile :: "(string \<Rightarrow> int option) \<Rightarrow> (string \<Rightarrow> AuditEntry option)
    \<Rightarrow> string list option \<Rightarrow> string option \<Rightarrow> IntegrityResult" where
  "verifyIntegrityFile getTime parse file fromDate =
     (let entries = fst (readAllEntries parse file) in verifyIntegrity getTime entries fromDate)"




section \<open>The logger (\<open>logger.ts\<close>)\<close>

text \<open>\<open>Partial<ComplianceInfo>\<close>: every property may be missing.\<close>

record PartialCompliance =
  p_regulations :: "string list option"
  p_riskFlags :: "string list option"
  p_humanReviewRequired :: "bool option"
  p_checksPerformed :: "string list option"
  p_exemptions :: "string list option"

record AuditEntryOptions =
  o_tool :: string
  o_command :: string
  o_toolVersion :: string
  o_inputs :: "(string \<times> json) list"
  o_outputs :: "(string \<times> json) list"
  o_rationale :: string
  o_warnings :: "string list option"
  o_compliance :: "PartialCompliance option"
  o_operator :: "string option"
  o_sessionId :: "string option"
  o_parentAuditId :: "string option"
  o_loanId :: "string option"
  o_durationMs :: "int option"

record AuditLogger =
  defaultOperator :: string
  boundSessionId :: "string option"

definition defaultComplianceInfo :: ComplianceInfo where
  "defaultComplianceInfo =
     \<lparr>regulations = [], riskFlags = [], humanReviewRequired = False,
      checksPerformed = None, exemptions = None\<rparr>"

text \<open>\<open>a || b\<close> on optional strings, and with a string as the default.\<close>

definition orElse :: "string option \<Rightarrow> string option \<Rightarrow> string option" where
  "orElse a b = (if truthy a then a else b)"

fun orString :: "string option \<Rightarrow> string \<Rightarrow> string" where
  "orString None d = d"
| "orString (Some s) d = (if s \<noteq> [] then s else d)"

definition newAuditLogger :: "string option \<Rightarrow> string option \<Rightarrow> AuditLogger" where
  "newAuditLogger operatorOpt sessionOpt =
     \<lparr>defaultOperator = orString operatorOpt ''system'',
      boundSessionId = sessionOpt\<rparr>"

text \<open>The spread \<open>{...base, ...partial}\<close>: a property of \<open>partial\<close> wins when present.\<close>

definition spreadCompliance :: "ComplianceInfo \<Rightarrow> PartialCompliance option \<Rightarrow> ComplianceInfo" where
  "spreadCompliance base partial =
     (case partial of
        None \<Rightarrow> base
      | Some p \<Rightarrow>
          \<lparr>regulations = (case p_regulations p of Some r \<Rightarrow> r | None \<Rightarrow> regulations base),
           riskFlags = (case p_riskFlags p of Some r \<Rightarrow> r | None \<Rightarrow> riskFlags base),
           humanReviewRequired =
             (case p_humanReviewRequired p of Some b \<Rightarrow> b | None \<Rightarrow> humanReviewRequired base),
           checksPerformed =
             (case p_checksPerformed p of Some r \<Rightarrow> Some r | None \<Rightarrow> checksPerformed base),
           exemptions = (case p_exemptions p of Some r \<Rightarrow> Some r | None \<Rightarrow> exemptions base)\<rparr>)"

text \<open>
  \<open>log\<close> reads the last entry, builds the entry, hashes it and appends it. The
  identifier from \<open>uuidv4()\<close> and the time from \<open>new Date().toISOString()\<close> are
  arguments; the result is the entry and the storage after the append.
\<close>

definition log :: "AuditLogger \<Rightarrow> AuditEntry list \<Rightarrow> AuditEntryOptions \<Rightarrow> string \<Rightarrow> string
    \<Rightarrow> AuditEntry \<times> AuditEntry list" where
  "log logger storage options uuid now =
     (let lastEntry = getLastEntry storage;
          prevHash = (case lastEntry of None \<Rightarrow> None | Some l \<Rightarrow> entryHash l);
          entryWithoutHash =
            \<lparr>auditId = uuid,
             timestamp = now,
             tool = o_tool options,
             command = o_command options,
             toolVersion = o_toolVersion options,
             inputs = sanitizeInputs (o_inputs options),
             outputs = o_outputs options,
             rationale = o_rationale options,
             warnings = (case o_warnings options of Some w \<Rightarrow> w | None \<Rightarrow> []),
             compliance = spreadCompliance defaultComplianceInfo (o_compliance options),
             operator = orString (o_operator options) (defaultOperator logger),
             sessionId = orElse (o_sessionId options) (boundSessionId logger),
             parentAuditId = o_parentAuditId options,
             loanId = o_loanId options,
             durationMs = o_durationMs options,
             previousHash = prevHash,
             entryHash = None\<rparr>;
          computedHash = computeEntryHash entryWithoutHash;
          entry = entryWithoutHash\<lparr>entryHash := Some computedHash\<rparr>
      in (entry, appendEntry entry storage))"

datatype decision = Approved | Declined | Referred | Countered

fun decisionString :: "decision \<Rightarrow> string" where
  "decisionString Approved = ''approved''"
| "decisionString Declined = ''declined''"
| "decisionString Referred = ''referred''"
| "decisionString Countered = ''countered''"

text \<open>
  The assignment \<open>obj[k] = v\<close> on an object: an existing property keeps its place, a
  new one comes last.
\<close>

fun setProp :: "string \<Rightarrow> json \<Rightarrow> (string \<times> json) list \<Rightarrow> (string \<times> json) list" where
  "setProp k v [] = [(k, v)]"
| "setProp k v ((k', v') # rest) =
     (if k' = k then (k, v) # rest else (k', v') # setProp k v rest)"

fun getProp :: "string \<Rightarrow> (string \<times> json) list \<Rightarrow> json option" where
  "getProp k [] = None"
| "getProp k ((k', v') # rest) = (if k' = k then Some v' else getProp k rest)"

definition logDecision :: "AuditLogger \<Rightarrow> AuditEntry list \<Rightarrow> AuditEntryOptions \<Rightarrow> decision
    \<Rightarrow> string list option \<Rightarrow> string \<Rightarrow> string \<Rightarrow> AuditEntry \<times> AuditEntry list" where
  "logDecision logger storage options dec declineReasons uuid now =
     (let outs = setProp ''decision'' (JStr (decisionString dec)) (o_outputs options);
          outs = (if dec = Declined
                  then setProp ''adverseActionReasons''
                         (strings (case declineReasons of
                                     Some reasons \<Rightarrow> reasons
                                   | None \<Rightarrow> [''Unspecified reason'']))
                         outs
                  else outs);
          given = o_compliance options;
          givenRegulations =
            (case given of None \<Rightarrow> [] | Some p \<Rightarrow>
               (case p_regulations p of None \<Rightarrow> [] | Some r \<Rightarrow> r));
          givenReview =
            (case given of None \<Rightarrow> False | Some p \<Rightarrow>
               (case p_humanReviewRequired p of None \<Rightarrow> False | Some b \<Rightarrow> b));
          base = (case given of
                    Some p \<Rightarrow> p
                  | None \<Rightarrow> \<lparr>p_regulations = None, p_riskFlags = None,
                              p_humanReviewRequired = None, p_checksPerformed = None,
                              p_exemptions = None\<rparr>)
      in log logger storage
           (options\<lparr>o_outputs := outs,
                    o_compliance :=
                      Some (base\<lparr>p_regulations := Some (givenRegulations @ [''ECOA'', ''Reg B'']),
                                 p_humanReviewRequired := Some (dec = Declined \<or> givenReview)\<rparr>)\<rparr>)
           uuid now)"

text \<open>
  A sequence of calls of \<open>log\<close> against one storage: each call is given its options,
  its identifier and its time, and runs on the storage the previous call left.
\<close>

fun logAll :: "AuditLogger \<Rightarrow> AuditEntry list \<Rightarrow> (AuditEntryOptions \<times> string \<times> string) list
    \<Rightarrow> AuditEntry list \<times> AuditEntry list" where
  "logAll logger storage [] = ([], storage)"
| "logAll logger storage ((options, uuid, now) # calls) =
     (let (entry, storage') = log logger storage options uuid now;
          (produced, final) = logAll logger storage' calls
      in (entry # produced, final))"

section \<open>The outcome of one loop iteration\<close>

text \<open>
  The two records that the loop of \<open>verifyIntegrity\<close> pushes onto \<open>failures\<close>, and the
  outcome of one iteration as a function of the position and the entry: the failure
  pushed, or \<open>None\<close> when the iteration ends in \<open>validEntries++\<close>.
\<close>

definition previousFailure :: "AuditEntry \<Rightarrow> AuditEntry \<Rightarrow> IntegrityFailure" where
  "previousFailure previousEntry entry =
     \<lparr>f_auditId = auditId entry, f_timestamp = timestamp entry,
      reason = ''Previous hash mismatch'',
      expectedHash = entryHash previousEntry,
      actualHash = previousHash entry\<rparr>"

definition hashFailure :: "AuditEntry \<Rightarrow> IntegrityFailure" where
  "hashFailure entry =
     \<lparr>f_auditId = auditId entry, f_timestamp = timestamp entry,
      reason = ''Entry hash mismatch - possible tampering'',
      expectedHash = entryHash entry,
      actualHash = Some (computeEntryHash entry)\<rparr>"

definition linkBroken :: "AuditEntry list \<Rightarrow> nat \<times> AuditEntry \<Rightarrow> bool" where
  "linkBroken entries p =
     (0 < fst p \<and> previousHash (snd p) \<noteq> entryHash (entries ! (fst p - 1)))"

definition hashBroken :: "AuditEntry \<Rightarrow> bool" where
  "hashBroken entry = (Some (computeEntryHash entry) \<noteq> entryHash entry)"

definition entryFailure :: "AuditEntry list \<Rightarrow> nat \<times> AuditEntry \<Rightarrow> IntegrityFailure option" where
  "entryFailure entries p =
     (if linkBroken entries p then Some (previousFailure (entries ! (fst p - 1)) (snd p))
      else if hashBroken (snd p) then Some (hashFailure (snd p))
      else None)"

text \<open>The date filter of \<open>verifyIntegrity\<close> as a predicate on entries.\<close>

definition inRange :: "(string \<Rightarrow> int option) \<Rightarrow> string option \<Rightarrow> AuditEntry \<Rightarrow> bool" where
  "inRange getTime fromDate e =
     (case fromDate of
        None \<Rightarrow> True
      | Some d \<Rightarrow> if d \<noteq> [] then timeGe (getTime (timestamp e)) (getTime d) else True)"

section \<open>Reading a JSON text\<close>










section \<open>The shape of sanitised inputs\<close>

text \<open>
  A value without arrays at any depth, and the value that \<open>sanitizeInputs\<close> stores
  under a key that is not sensitive.
\<close>

fun arrayFree :: "json \<Rightarrow> bool"
  and arrayFreeElements :: "json list \<Rightarrow> bool"
  and arrayFreeMembers :: "(string \<times> json) list \<Rightarrow> bool" where
  "arrayFree (JArr vs) = False"
| "arrayFree (JObj kvs) = arrayFreeMembers kvs"
| "arrayFree JNull = True"
| "arrayFree (JBool b) = True"
| "arrayFree (JNum i) = True"
| "arrayFree (JStr s) = True"
| "arrayFreeElements [] = True"
| "arrayFreeElements (v # vs) = (arrayFree v \<and> arrayFreeElements vs)"
| "arrayFreeMembers [] = True"
| "arrayFreeMembers ((k, v) # kvs) = (arrayFree v \<and> arrayFreeMembers kvs)"


section \<open>Sample data\<close>

text \<open>
  A logger, three calls of \<open>log\<close> and the log they leave in an empty storage; the
  values of \<open>new Date(s).getTime()\<close> on the dates used.
\<close>

definition sampleLogger :: AuditLogger where
  "sampleLogger = newAuditLogger (Some ''test-user'') None"

definition sampleOptions :: "string \<Rightarrow> string \<Rightarrow> AuditEntryOptions" where
  "sampleOptions t c =
     \<lparr>o_tool = t, o_command = c, o_toolVersion = ''0.1.0'', o_inputs = [], o_outputs = [],
      o_rationale = ''Test'', o_warnings = None, o_compliance = None, o_operator = None,
      o_sessionId = None, o_parentAuditId = None, o_loanId = None, o_durationMs = None\<rparr>"

definition sampleCalls :: "(AuditEntryOptions \<times> string \<times> string) list" where
  "sampleCalls =
     [(sampleOptions ''finctl'' ''income'', ''id-1'', ''2026-01-15T10:00:00.000Z''),
      (sampleOptions ''finctl'' ''dti'', ''id-2'', ''2026-02-10T09:30:00.000Z''),
      (sampleOptions ''decctl'' ''decide'', ''id-3'', ''2026-03-05T12:00:00.000Z'')]"

definition sampleLog :: "AuditEntry list" where
  "sampleLog = snd (logAll sampleLogger [] sampleCalls)"

definition sampleTime :: "string \<Rightarrow> int option" where
  "sampleTime s =
     (if s = ''2026-01-15T10:00:00.000Z'' then Some 1768471200000
      else if s = ''2026-02-01T00:00:00.000Z'' then Some 1769904000000
      else if s = ''2026-02-10T09:30:00.000Z'' then Some 1770715800000
      else if s = ''2026-03-05T12:00:00.000Z'' then Some 1772712000000
      else None)"

text \<open>
  The line of the first entry of the sample log, and a reading of lines that accepts
  this line only.
\<close>

definition sampleLine :: string where
  "sampleLine = stringify (JObj
     [(''auditId'', JStr ''id-1''),
      (''timestamp'', JStr ''2026-01-15T10:00:00.000Z''),
      (''tool'', JStr ''finctl''),
      (''command'', JStr ''income''),
      (''toolVersion'', JStr ''0.1.0''),
      (''inputs'', JObj []),
      (''outputs'', JObj []),
      (''rationale'', JStr ''Test''),
      (''warnings'', JArr []),
      (''compliance'', JObj [(''regulations'', JArr []), (''riskFlags'', JArr []),
                             (''humanReviewRequired'', JBool False)]),
      (''operator'', JStr ''test-user''),
      (''entryHash'', JStr ''0bec1a3a9471d4398c872ac3dfc0d06245e3b31f68106ab21ff4aad65ebc9879'')])"

definition sampleParse :: "string \<Rightarrow> AuditEntry option" where
  "sampleParse line = (if line = sampleLine then Some (sampleLog ! 0) else None)"

section \<open>Format of the hash\<close>

lemma hex32_length: "length (hex32 w) = 8"
  by (simp add: hex32_def)

lemma digitChar_hex: "digitChar n \<in> set ''0123456789abcdef''"
proof -
  have "n mod 16 < length ''0123456789abcdef''" by simp
  then show ?thesis unfolding digitChar_def by (rule nth_mem)
qed

lemma hex32_set: "set (hex32 w) \<subseteq> set ''0123456789abcdef''"
  unfolding hex32_def using digitChar_hex by auto

lemma hexState_length: "length (hexState st) = 64"
  by (induction st rule: hexState.induct) (simp add: hex32_length)

lemma hexState_set: "set (hexState st) \<subseteq> set ''0123456789abcdef''"
  using hex32_set by (induction st rule: hexState.induct) simp

lemma computeEntryHash_length: "length (computeEntryHash e) = 64"
  by (simp add: computeEntryHash_def sha256_hex_def hexState_length)

lemma computeEntryHash_hex: "set (computeEntryHash e) \<subseteq> set ''0123456789abcdef''"
  unfolding computeEntryHash_def sha256_hex_def by (rule hexState_set)

lemma hashContent_entryHash: "hashContent (e\<lparr>entryHash := h\<rparr>) = hashContent e"
  by (simp add: hashContent_def)

lemma computeEntryHash_cong:
  "hashContent e = hashContent e' \<Longrightarrow> computeEntryHash e = computeEntryHash e'"
  by (simp add: computeEntryHash_def)


lemma computeEntryHash_neq: "length s \<noteq> 64 \<Longrightarrow> computeEntryHash e \<noteq> s"
  using computeEntryHash_length by blast

text \<open>
  C7. \<open>computeEntryHash\<close> is a function of the sixteen hash-covered properties only:
  it is the SHA-256 digest of their JSON text, two entries that agree on them have the
  same hash, and the \<open>entryHash\<close> property of the entry is not part of the input. The
  result is a string of 64 lowercase hexadecimal digits.
\<close>

theorem computeEntryHash_pure:
  "computeEntryHash e = sha256_hex (stringify (hashContent e))
   \<and> (hashContent e = hashContent e' \<longrightarrow> computeEntryHash e = computeEntryHash e')
   \<and> hashContent (e\<lparr>entryHash := h\<rparr>) = hashContent e
   \<and> computeEntryHash (e\<lparr>entryHash := h\<rparr>) = computeEntryHash e
   \<and> length (computeEntryHash e) = 64
   \<and> set (computeEntryHash e) \<subseteq> set ''0123456789abcdef''"
  using computeEntryHash_length [of e] computeEntryHash_hex [of e]
  by (simp add: computeEntryHash_def hashContent_entryHash)

theorem computeEntryHash_pure_witness:
  "hashContent (sampleLog ! 0) = hashContent ((sampleLog ! 0)\<lparr>entryHash := None\<rparr>)
   \<and> computeEntryHash (sampleLog ! 0) = computeEntryHash ((sampleLog ! 0)\<lparr>entryHash := None\<rparr>)
   \<and> length (computeEntryHash (sampleLog ! 0)) = 64"
  using computeEntryHash_pure [of "sampleLog ! 0" "(sampleLog ! 0)\<lparr>entryHash := None\<rparr>" None]
  by metis

section \<open>The entries produced by \<open>log\<close>\<close>

lemma log_fst_snd: "snd (log l st opts u n) = st @ [fst (log l st opts u n)]"
  by (simp add: log_def Let_def appendEntry_def)

lemma log_entryHash:
  "entryHash (fst (log l st opts u n)) = Some (computeEntryHash (fst (log l st opts u n)))"
  by (simp add: log_def Let_def computeEntryHash_def hashContent_def)

lemma log_previousHash:
  "previousHash (fst (log l st opts u n)) =
     (case getLastEntry st of None \<Rightarrow> None | Some x \<Rightarrow> entryHash x)"
  by (simp add: log_def Let_def)

lemma log_fields:
  "auditId (fst (log l st opts u n)) = u"
  "timestamp (fst (log l st opts u n)) = n"
  "tool (fst (log l st opts u n)) = o_tool opts"
  "inputs (fst (log l st opts u n)) = sanitizeInputs (o_inputs opts)"
  "outputs (fst (log l st opts u n)) = o_outputs opts"
  "compliance (fst (log l st opts u n)) = spreadCompliance defaultComplianceInfo (o_compliance opts)"
  by (simp_all add: log_def Let_def)

lemma getLastEntry_snoc: "getLastEntry (st @ [e]) = Some e"
  by (simp add: getLastEntry_def)

lemma getLastEntry_Nil: "getLastEntry [] = None"
  by (simp add: getLastEntry_def)

lemma logAll_Cons:
  "logAll l st ((opts, u, n) # calls) =
     (fst (log l st opts u n) # fst (logAll l (st @ [fst (log l st opts u n)]) calls),
      snd (logAll l (st @ [fst (log l st opts u n)]) calls))"
  by (simp add: case_prod_unfold Let_def log_fst_snd)

lemma logAll_snd: "snd (logAll l st calls) = st @ fst (logAll l st calls)"
proof (induction calls arbitrary: st)
  case Nil
  show ?case by simp
next
  case (Cons c calls)
  obtain opts u n where c: "c = (opts, u, n)" by (cases c)
  show ?case unfolding c logAll_Cons by (simp add: Cons.IH)
qed

lemma logAll_length: "length (fst (logAll l st calls)) = length calls"
proof (induction calls arbitrary: st)
  case Nil
  show ?case by simp
next
  case (Cons c calls)
  obtain opts u n where c: "c = (opts, u, n)" by (cases c)
  show ?case unfolding c logAll_Cons by (simp add: Cons.IH)
qed

lemma logAll_timestamps: "map timestamp (fst (logAll l st calls)) = map (\<lambda>c. snd (snd c)) calls"
proof (induction calls arbitrary: st)
  case Nil
  show ?case by simp
next
  case (Cons c calls)
  obtain opts u n where c: "c = (opts, u, n)" by (cases c)
  show ?case unfolding c logAll_Cons by (simp add: Cons.IH log_fields)
qed


lemma logAll_hashes:
  "k < length (fst (logAll l st calls)) \<Longrightarrow>
   entryHash (fst (logAll l st calls) ! k) = Some (computeEntryHash (fst (logAll l st calls) ! k))"
proof (induction calls arbitrary: st k)
  case Nil
  then show ?case by simp
next
  case (Cons c calls)
  obtain opts u n where c: "c = (opts, u, n)" by (cases c)
  from Cons.prems show ?case
    unfolding c logAll_Cons by (cases k) (simp_all add: Cons.IH log_entryHash)
qed

lemma logAll_links:
  "k < length (fst (logAll l st calls)) \<Longrightarrow>
   previousHash (fst (logAll l st calls) ! k) =
     (if k = 0 then (case getLastEntry st of None \<Rightarrow> None | Some x \<Rightarrow> entryHash x)
      else entryHash (fst (logAll l st calls) ! (k - 1)))"
proof (induction calls arbitrary: st k)
  case Nil
  then show ?case by simp
next
  case (Cons c calls)
  obtain opts u n where c: "c = (opts, u, n)" by (cases c)
  show ?case
  proof (cases k)
    case 0
    then show ?thesis unfolding c logAll_Cons by (simp add: log_previousHash)
  next
    case (Suc j)
    with Cons.prems have j: "j < length (fst (logAll l (st @ [fst (log l st opts u n)]) calls))"
      unfolding c logAll_Cons by simp
    show ?thesis
      unfolding c logAll_Cons Suc
      using Cons.IH [OF j] by (cases j) (simp_all add: getLastEntry_snoc)
  qed
qed

lemma sampleLog_fst: "sampleLog = fst (logAll sampleLogger [] sampleCalls)"
  by (simp add: sampleLog_def logAll_snd)

lemma sampleLog_length: "length sampleLog = 3"
  by (simp only: sampleLog_fst logAll_length) (simp add: sampleCalls_def)

text \<open>
  C2. A sequence of calls of \<open>log\<close> against one storage that is empty at the start
  leaves exactly the produced entries in the storage, in order. The first entry has no
  \<open>previousHash\<close>, and the \<open>previousHash\<close> of every later entry is the \<open>entryHash\<close>
  of the entry produced by the call before it, which is the hash of that entry.
\<close>

theorem log_chain_linkage:
  assumes "logAll logger [] calls = (produced, final)"
  shows "final = produced \<and> length produced = length calls
    \<and> (produced \<noteq> [] \<longrightarrow> previousHash (produced ! 0) = None)
    \<and> (\<forall>k. 0 < k \<and> k < length produced \<longrightarrow>
          previousHash (produced ! k) = entryHash (produced ! (k - 1))
          \<and> entryHash (produced ! (k - 1)) = Some (computeEntryHash (produced ! (k - 1))))"
proof -
  from assms have p: "produced = fst (logAll logger [] calls)"
    and f: "final = snd (logAll logger [] calls)" by simp_all
  have "final = produced" unfolding p f by (simp add: logAll_snd)
  moreover have "length produced = length calls" unfolding p by (rule logAll_length)
  moreover have "produced \<noteq> [] \<longrightarrow> previousHash (produced ! 0) = None"
    unfolding p using logAll_links [of 0 logger "[]" calls] by (simp add: getLastEntry_Nil)
  moreover have "\<forall>k. 0 < k \<and> k < length produced \<longrightarrow>
          previousHash (produced ! k) = entryHash (produced ! (k - 1))
          \<and> entryHash (produced ! (k - 1)) = Some (computeEntryHash (produced ! (k - 1)))"
    unfolding p
    using logAll_links [of _ logger "[]" calls] logAll_hashes [of _ logger "[]" calls]
    by (simp add: less_imp_diff_less)
  ultimately show ?thesis by blast
qed

theorem log_chain_linkage_witness:
  "logAll sampleLogger [] sampleCalls = (sampleLog, sampleLog)
   \<and> length sampleLog = 3
   \<and> previousHash (sampleLog ! 0) = None
   \<and> previousHash (sampleLog ! 1) = entryHash (sampleLog ! 0)
   \<and> previousHash (sampleLog ! 2) = entryHash (sampleLog ! 1)
   \<and> entryHash (sampleLog ! 0) = Some (computeEntryHash (sampleLog ! 0))"
proof -
  have eq: "logAll sampleLogger [] sampleCalls = (sampleLog, sampleLog)"
    by (simp add: prod_eq_iff sampleLog_fst [symmetric] sampleLog_def [symmetric])
  have len: "length sampleLog = 3" by (rule sampleLog_length)
  from log_chain_linkage [OF eq] len
  have first: "previousHash (sampleLog ! 0) = None"
    and rest: "\<forall>k. 0 < k \<and> k < 3 \<longrightarrow>
          previousHash (sampleLog ! k) = entryHash (sampleLog ! (k - 1))
          \<and> entryHash (sampleLog ! (k - 1)) = Some (computeEntryHash (sampleLog ! (k - 1)))"
    by auto
  from rest [rule_format, of 1] rest [rule_format, of 2] first eq len
  show ?thesis by simp
qed

section \<open>The integrity verifier\<close>

lemma verifyLoop_eq:
  "verifyLoop entries toCheck fs v =
     (fs @ List.map_filter (entryFailure entries) toCheck,
      v + length (filter (\<lambda>p. entryFailure entries p = None) toCheck))"
proof (induction toCheck arbitrary: fs v)
  case Nil
  show ?case by (simp add: List.map_filter_simps)
next
  case (Cons p rest)
  obtain i e where p: "p = (i, e)" by (cases p)
  show ?case
    unfolding p
    by (simp add: Cons.IH List.map_filter_simps entryFailure_def linkBroken_def hashBroken_def
        previousFailure_def hashFailure_def Let_def)
qed

lemma toCheck_eq:
  "whenTruthy fromDate
     (\<lambda>v. let fromTime = getTime v
          in filter (\<lambda>(i, e). timeGe (getTime (timestamp e)) fromTime))
     (indexed entries)
   = filter (\<lambda>p. inRange getTime fromDate (snd p)) (indexed entries)"
  by (cases fromDate) (auto simp: inRange_def case_prod_unfold)

lemma verifyIntegrity_eq:
  "verifyIntegrity getTime entries fromDate =
     (let toCheck = filter (\<lambda>p. inRange getTime fromDate (snd p)) (indexed entries);
          fails = List.map_filter (entryFailure entries) toCheck
      in \<lparr>valid = (fails = []),
          entriesChecked = length toCheck,
          validEntries = length (filter (\<lambda>p. entryFailure entries p = None) toCheck),
          invalidEntries = length fails,
          failures = fails\<rparr>)"
  unfolding verifyIntegrity_def toCheck_eq by (simp add: verifyLoop_eq Let_def)

lemma map_filter_length:
  "length (List.map_filter f xs) + length (filter (\<lambda>x. f x = None) xs) = length xs"
  by (induction xs) (auto simp: List.map_filter_simps split: option.splits)

lemma map_filter_append:
  "List.map_filter f (xs @ ys) = List.map_filter f xs @ List.map_filter f ys"
  by (simp add: List.map_filter_def)


lemma map_filter_mem: "x \<in> set xs \<Longrightarrow> f x = Some y \<Longrightarrow> y \<in> set (List.map_filter f xs)"
  by (force simp: List.map_filter_def)

lemma map_snd_indexed: "map snd (indexed xs) = xs"
  by (simp add: indexed_def)

lemma indexed_filter_snd:
  "map snd (filter (\<lambda>p. P (snd p)) (indexed xs)) = filter P xs"
proof -
  have "map snd (filter (\<lambda>p. P (snd p)) (indexed xs)) = filter P (map snd (indexed xs))"
    by (simp add: filter_map comp_def)
  then show ?thesis by (simp add: map_snd_indexed)
qed

lemma length_toCheck:
  "length (filter (\<lambda>p. inRange getTime fromDate (snd p)) (indexed entries))
   = length (filter (inRange getTime fromDate) entries)"
  using arg_cong [OF indexed_filter_snd [of "inRange getTime fromDate" entries], of length]
  by simp

lemma indexed_nth: "i < length xs \<Longrightarrow> indexed xs ! i = (i, xs ! i)"
  by (simp add: indexed_def)

lemma length_indexed: "length (indexed xs) = length xs"
  by (simp add: indexed_def)

lemma indexed_mem: "i < length xs \<Longrightarrow> (i, xs ! i) \<in> set (indexed xs)"
  by (metis indexed_nth length_indexed nth_mem)


text \<open>
  C3. \<open>verifyIntegrity(fromDate)\<close> reports on the entries within the date filter
  only: \<open>entriesChecked\<close> is their number, \<open>validEntries + invalidEntries\<close> equals it,
  and \<open>valid\<close> holds exactly when \<open>invalidEntries\<close> is 0. The failures are the
  outcomes of the reported-on entries, each checked against its predecessor in the
  full list: a reported-on entry whose \<open>previousHash\<close> differs from the \<open>entryHash\<close> of
  the entry stored before it is reported, whether or not that predecessor is within
  the date filter.
\<close>

theorem verifyIntegrity_date_filter:
  "entriesChecked (verifyIntegrity getTime entries fromDate)
     = length (filter (inRange getTime fromDate) entries)
   \<and> validEntries (verifyIntegrity getTime entries fromDate)
       + invalidEntries (verifyIntegrity getTime entries fromDate)
     = entriesChecked (verifyIntegrity getTime entries fromDate)
   \<and> (valid (verifyIntegrity getTime entries fromDate)
        \<longleftrightarrow> invalidEntries (verifyIntegrity getTime entries fromDate) = 0)
   \<and> failures (verifyIntegrity getTime entries fromDate)
     = List.map_filter (entryFailure entries)
         (filter (\<lambda>p. inRange getTime fromDate (snd p)) (indexed entries))
   \<and> (\<forall>i. 0 < i \<and> i < length entries \<and> inRange getTime fromDate (entries ! i)
            \<and> previousHash (entries ! i) \<noteq> entryHash (entries ! (i - 1))
          \<longrightarrow> previousFailure (entries ! (i - 1)) (entries ! i)
                \<in> set (failures (verifyIntegrity getTime entries fromDate)))"
proof -
  let ?r = "verifyIntegrity getTime entries fromDate"
  let ?toCheck = "filter (\<lambda>p. inRange getTime fromDate (snd p)) (indexed entries)"
  have c1: "entriesChecked ?r = length (filter (inRange getTime fromDate) entries)"
    by (simp add: verifyIntegrity_eq Let_def length_toCheck)
  have c2: "validEntries ?r + invalidEntries ?r = entriesChecked ?r"
    using map_filter_length [of "entryFailure entries" ?toCheck]
    by (simp add: verifyIntegrity_eq Let_def)
  have c3: "valid ?r \<longleftrightarrow> invalidEntries ?r = 0"
    by (simp add: verifyIntegrity_eq Let_def)
  have fs: "failures ?r = List.map_filter (entryFailure entries) ?toCheck"
    by (simp add: verifyIntegrity_eq Let_def)
  have c5: "\<forall>i. 0 < i \<and> i < length entries \<and> inRange getTime fromDate (entries ! i)
             \<and> previousHash (entries ! i) \<noteq> entryHash (entries ! (i - 1))
           \<longrightarrow> previousFailure (entries ! (i - 1)) (entries ! i) \<in> set (failures ?r)"
  proof (intro allI impI)
    fix i
    assume a: "0 < i \<and> i < length entries \<and> inRange getTime fromDate (entries ! i)
             \<and> previousHash (entries ! i) \<noteq> entryHash (entries ! (i - 1))"
    then have "(i, entries ! i) \<in> set ?toCheck"
      by (simp add: indexed_mem)
    moreover from a have "entryFailure entries (i, entries ! i)
        = Some (previousFailure (entries ! (i - 1)) (entries ! i))"
      by (simp add: entryFailure_def linkBroken_def)
    ultimately show "previousFailure (entries ! (i - 1)) (entries ! i) \<in> set (failures ?r)"
      unfolding fs by (rule map_filter_mem)
  qed
  from c1 c2 c3 fs c5 show ?thesis by blast
qed

lemma sampleLog_timestamps:
  "map timestamp sampleLog =
     [''2026-01-15T10:00:00.000Z'', ''2026-02-10T09:30:00.000Z'', ''2026-03-05T12:00:00.000Z'']"
  by (simp only: sampleLog_fst logAll_timestamps) (simp add: sampleCalls_def)

lemma sampleLog_timestamp:
  "timestamp (sampleLog ! 0) = ''2026-01-15T10:00:00.000Z''"
  "timestamp (sampleLog ! Suc 0) = ''2026-02-10T09:30:00.000Z''"
  "timestamp (sampleLog ! 2) = ''2026-03-05T12:00:00.000Z''"
  using arg_cong [OF sampleLog_timestamps, of "\<lambda>xs. xs ! 0"]
        arg_cong [OF sampleLog_timestamps, of "\<lambda>xs. xs ! 1"]
        arg_cong [OF sampleLog_timestamps, of "\<lambda>xs. xs ! 2"]
  by (simp_all add: sampleLog_length)

lemma sampleLog_list: "sampleLog = [sampleLog ! 0, sampleLog ! 1, sampleLog ! 2]"
  by (rule nth_equalityI) (auto simp: sampleLog_length less_Suc_eq numeral_3_eq_3 numeral_2_eq_2)

text \<open>
  The second entry of the sample log with a changed \<open>previousHash\<close>, verified from
  1 February: the first entry is outside the date filter, and the broken link to it
  is reported.
\<close>

theorem verifyIntegrity_date_filter_witness:
  "entriesChecked (verifyIntegrity sampleTime
       (sampleLog[1 := (sampleLog ! 1)\<lparr>previousHash := Some ''0000''\<rparr>])
       (Some ''2026-02-01T00:00:00.000Z'')) = 2
   \<and> \<not> inRange sampleTime (Some ''2026-02-01T00:00:00.000Z'') (sampleLog ! 0)
   \<and> previousFailure (sampleLog ! 0) ((sampleLog ! 1)\<lparr>previousHash := Some ''0000''\<rparr>)
       \<in> set (failures (verifyIntegrity sampleTime
            (sampleLog[1 := (sampleLog ! 1)\<lparr>previousHash := Some ''0000''\<rparr>])
            (Some ''2026-02-01T00:00:00.000Z'')))"
proof -
  let ?e = "(sampleLog ! 1)\<lparr>previousHash := Some ''0000''\<rparr>"
  let ?es = "sampleLog[1 := ?e]"
  let ?d = "Some ''2026-02-01T00:00:00.000Z''"
  have es: "?es = [sampleLog ! 0, ?e, sampleLog ! 2]"
    by (subst sampleLog_list) simp
  have r0: "\<not> inRange sampleTime ?d (sampleLog ! 0)"
    by (simp add: inRange_def sampleLog_timestamp sampleTime_def)
  have r1: "inRange sampleTime ?d ?e"
    by (simp add: inRange_def sampleLog_timestamp sampleTime_def)
  have r2: "inRange sampleTime ?d (sampleLog ! 2)"
    by (simp add: inRange_def sampleLog_timestamp sampleTime_def)
  have neq: "previousHash ?e \<noteq> entryHash (sampleLog ! 0)"
    using logAll_hashes [of 0 sampleLogger "[]" sampleCalls]
    by (simp add: sampleLog_fst [symmetric] sampleLog_length computeEntryHash_neq [symmetric])
  note inst = verifyIntegrity_date_filter [of sampleTime ?es ?d]
  from inst have "entriesChecked (verifyIntegrity sampleTime ?es ?d)
      = length (filter (inRange sampleTime ?d) ?es)" by blast
  then have n: "entriesChecked (verifyIntegrity sampleTime ?es ?d) = 2"
    unfolding es using r0 r1 r2 by simp
  from inst have "0 < (1::nat) \<and> 1 < length ?es \<and> inRange sampleTime ?d (?es ! 1)
            \<and> previousHash (?es ! 1) \<noteq> entryHash (?es ! (1 - 1))
          \<longrightarrow> previousFailure (?es ! (1 - 1)) (?es ! 1)
                \<in> set (failures (verifyIntegrity sampleTime ?es ?d))" by blast
  then have "previousFailure (sampleLog ! 0) ?e \<in> set (failures (verifyIntegrity sampleTime ?es ?d))"
    using r1 neq by (simp add: sampleLog_length)
  with n r0 show ?thesis by blast
qed

lemma logAll_auditIds: "map auditId (fst (logAll l st calls)) = map (\<lambda>c. fst (snd c)) calls"
proof (induction calls arbitrary: st)
  case Nil
  show ?case by simp
next
  case (Cons c calls)
  obtain opts u n where c: "c = (opts, u, n)" by (cases c)
  show ?case unfolding c logAll_Cons by (simp add: Cons.IH log_fields)
qed

lemma sampleLog_auditIds: "map auditId sampleLog = [''id-1'', ''id-2'', ''id-3'']"
  by (simp only: sampleLog_fst logAll_auditIds) (simp add: sampleCalls_def)

lemma sampleLog_auditId:
  "auditId (sampleLog ! 0) = ''id-1''"
  "auditId (sampleLog ! Suc 0) = ''id-2''"
  "auditId (sampleLog ! 2) = ''id-3''"
  using arg_cong [OF sampleLog_auditIds, of "\<lambda>xs. xs ! 0"]
        arg_cong [OF sampleLog_auditIds, of "\<lambda>xs. xs ! 1"]
        arg_cong [OF sampleLog_auditIds, of "\<lambda>xs. xs ! 2"]
  by (simp_all add: sampleLog_length)

lemma sampleLog_hash:
  "entryHash (sampleLog ! 0) = Some (computeEntryHash (sampleLog ! 0))"
  "entryHash (sampleLog ! Suc 0) = Some (computeEntryHash (sampleLog ! Suc 0))"
  "entryHash (sampleLog ! 2) = Some (computeEntryHash (sampleLog ! 2))"
  using logAll_hashes [of 0 sampleLogger "[]" sampleCalls]
        logAll_hashes [of 1 sampleLogger "[]" sampleCalls]
        logAll_hashes [of 2 sampleLogger "[]" sampleCalls]
  by (simp_all add: sampleLog_fst [symmetric] sampleLog_length)

lemma verifyLoop_split:
  "verifyLoop entries (before @ p # after) [] 0 =
     (fst (verifyLoop entries before [] 0) @ (case entryFailure entries p of None \<Rightarrow> [] | Some f \<Rightarrow> [f])
        @ fst (verifyLoop entries after [] 0),
      snd (verifyLoop entries before [] 0) + (case entryFailure entries p of None \<Rightarrow> 1 | Some f \<Rightarrow> 0)
        + snd (verifyLoop entries after [] 0))"
  by (simp add: verifyLoop_eq map_filter_append List.map_filter_simps split: option.splits)

lemma sampleLog_link:
  "previousHash (sampleLog ! Suc 0) = entryHash (sampleLog ! 0)"
  "previousHash (sampleLog ! 2) = entryHash (sampleLog ! Suc 0)"
  using logAll_links [of 1 sampleLogger "[]" sampleCalls]
        logAll_links [of 2 sampleLogger "[]" sampleCalls]
  by (simp_all add: sampleLog_fst [symmetric] sampleLog_length)

lemma indexed_split:
  "i < length xs \<Longrightarrow> indexed xs = take i (indexed xs) @ (i, xs ! i) # drop (Suc i) (indexed xs)"
  using id_take_nth_drop [of i "indexed xs"] by (simp add: length_indexed indexed_nth)

lemma toCheck_split:
  assumes "i < length entries" and "inRange getTime fromDate (entries ! i)"
  shows "filter (\<lambda>p. inRange getTime fromDate (snd p)) (indexed entries)
     = filter (\<lambda>p. inRange getTime fromDate (snd p)) (take i (indexed entries))
       @ (i, entries ! i)
       # filter (\<lambda>p. inRange getTime fromDate (snd p)) (drop (Suc i) (indexed entries))"
  using arg_cong [OF indexed_split [OF assms(1)], of "filter (\<lambda>p. inRange getTime fromDate (snd p))"]
    assms(2)
  by simp

text \<open>
  C5. Let the entry at position \<open>i > 0\<close> of the stored log be within the date filter,
  and let its \<open>previousHash\<close> differ from the \<open>entryHash\<close> of the entry at position
  \<open>i - 1\<close> of the stored log (which may itself be outside the date filter). Then
  \<open>verifyIntegrity\<close> records exactly one failure for it, placed between the failures
  of the checked entries stored before it and of those stored after it, with the reason
  \<open>Previous hash mismatch\<close>, the preceding entry's \<open>entryHash\<close> as expected and the
  entry's own \<open>previousHash\<close> as actual hash. Whatever the content hash of the entry
  is, no second failure is recorded for it, and it adds nothing to \<open>validEntries\<close>.
\<close>

theorem previous_hash_mismatch:
  assumes "0 < i" and "i < length entries"
    and "inRange getTime fromDate (entries ! i)"
    and "previousHash (entries ! i) \<noteq> entryHash (entries ! (i - 1))"
  shows "verifyIntegrity getTime entries fromDate =
     (let before = filter (\<lambda>p. inRange getTime fromDate (snd p)) (take i (indexed entries));
          after = filter (\<lambda>p. inRange getTime fromDate (snd p)) (drop (Suc i) (indexed entries));
          (failsBefore, validBefore) = verifyLoop entries before [] 0;
          (failsAfter, validAfter) = verifyLoop entries after [] 0
      in \<lparr>valid = False,
          entriesChecked = length before + 1 + length after,
          validEntries = validBefore + validAfter,
          invalidEntries = length failsBefore + 1 + length failsAfter,
          failures = failsBefore
            @ [\<lparr>f_auditId = auditId (entries ! i), f_timestamp = timestamp (entries ! i),
                reason = ''Previous hash mismatch'',
                expectedHash = entryHash (entries ! (i - 1)),
                actualHash = previousHash (entries ! i)\<rparr>]
            @ failsAfter\<rparr>)"
  unfolding verifyIntegrity_def toCheck_eq toCheck_split [OF assms(2,3)]
  using assms(1,4)
  by (simp add: verifyLoop_split entryFailure_def linkBroken_def previousFailure_def Let_def
      case_prod_unfold)

theorem previous_hash_mismatch_witness:
  "verifyIntegrity sampleTime (sampleLog[2 := (sampleLog ! 2)\<lparr>previousHash := Some ''0000''\<rparr>])
     (Some ''2026-02-01T00:00:00.000Z'')
   = \<lparr>valid = False, entriesChecked = 2, validEntries = 1, invalidEntries = 1,
      failures = [\<lparr>f_auditId = ''id-3'', f_timestamp = ''2026-03-05T12:00:00.000Z'',
                   reason = ''Previous hash mismatch'',
                   expectedHash = entryHash (sampleLog ! 1),
                   actualHash = Some ''0000''\<rparr>]\<rparr>"
proof -
  let ?e = "(sampleLog ! 2)\<lparr>previousHash := Some ''0000''\<rparr>"
  let ?es = "sampleLog[2 := ?e]"
  let ?d = "Some ''2026-02-01T00:00:00.000Z''"
  let ?P = "\<lambda>p. inRange sampleTime ?d (snd p)"
  have es: "?es = [sampleLog ! 0, sampleLog ! Suc 0, ?e]"
    by (subst sampleLog_list) simp
  have ix: "indexed ?es = [(0, sampleLog ! 0), (Suc 0, sampleLog ! Suc 0), (2, ?e)]"
    unfolding es by (simp add: indexed_def upt_conv_Cons)
  have r0: "\<not> inRange sampleTime ?d (sampleLog ! 0)"
    by (simp add: inRange_def sampleLog_timestamp sampleTime_def)
  have r1: "inRange sampleTime ?d (sampleLog ! Suc 0)"
    by (simp add: inRange_def sampleLog_timestamp sampleTime_def)
  have r2: "inRange sampleTime ?d (?es ! 2)"
    by (simp add: es inRange_def sampleLog_timestamp sampleTime_def)
  have neq: "previousHash (?es ! 2) \<noteq> entryHash (?es ! (2 - 1))"
    by (simp add: es sampleLog_hash computeEntryHash_neq [symmetric])
  have len: "2 < length ?es" by (simp add: sampleLog_length)
  have before: "filter ?P (take 2 (indexed ?es)) = [(Suc 0, sampleLog ! Suc 0)]"
    unfolding ix using r0 r1 by simp
  have after: "filter ?P (drop (Suc 2) (indexed ?es)) = []"
    unfolding ix by simp
  have ok: "verifyLoop ?es [(Suc 0, sampleLog ! Suc 0)] [] 0 = ([], 1)"
    unfolding es by (simp add: sampleLog_link sampleLog_hash)
  have at2: "auditId (?es ! 2) = ''id-3''" "timestamp (?es ! 2) = ''2026-03-05T12:00:00.000Z''"
    "previousHash (?es ! 2) = Some ''0000''" "entryHash (?es ! (2 - 1)) = entryHash (sampleLog ! 1)"
    by (simp_all add: es sampleLog_timestamp sampleLog_auditId)
  show ?thesis
    using previous_hash_mismatch [of 2 ?es sampleTime ?d, OF _ len r2 neq]
    unfolding Let_def before after ok at2 by simp
qed




section \<open>Tampering with a valid log\<close>

















section \<open>The JSON text determines the value\<close>






































section \<open>The hash covers every other property\<close>










section \<open>The hash of a sample entry, computed\<close>

text \<open>
  Evaluation rules that keep every intermediate word below \<open>2\<^sup>3\<^sup>2\<close>, and the five
  compression steps for the first entry of the sample log and for the same entry with
  another operator. The first four blocks of the two messages are the same.
\<close>

lemma rotr_norm: "rotr n x = take_bit 32 (drop_bit n x OR push_bit (32 - n) x)"
  by (simp add: rotr_def take_bit_word_eq_self)

lemma round256_norm:
  "round256 (a, b, c, d, e, f, g, h) (k, w) =
     (let t1 = take_bit 32 (h + bsig1 e + Ch e f g + k + w);
          t2 = take_bit 32 (bsig0 a + Maj a b c)
      in (take_bit 32 (t1 + t2), a, b, c, take_bit 32 (d + t1), e, f, g))"
  by (simp add: Let_def take_bit_word_eq_self)

lemma schedule_norm:
  "schedule (numeral n) ws =
     schedule (pred_numeral n)
       (take_bit 32 (ssig1 (ws ! 1) + ws ! 6 + ssig0 (ws ! 14) + ws ! 15) # ws)"
  by (simp only: numeral_eq_Suc [of n] schedule.simps take_bit_word_eq_self [OF order_refl, where 'a = 32, simplified])

lemma addState_norm:
  "addState (a, b, c, d, e, f, g, h) (a', b', c', d', e', f', g', h') =
     (take_bit 32 (a + a'), take_bit 32 (b + b'), take_bit 32 (c + c'), take_bit 32 (d + d'),
      take_bit 32 (e + e'), take_bit 32 (f + f'), take_bit 32 (g + g'), take_bit 32 (h + h'))"
  by (simp add: take_bit_word_eq_self)

lemmas sha_eval = rotr_norm round256_norm schedule_norm addState_norm
  Ch_def Maj_def bsig0_def bsig1_def ssig0_def ssig1_def be_word_def sha256_K_def Let_def

lemma sample_block1:
  "compress (1779033703, 3144134277, 1013904242, 2773480762, 1359893119, 2600822924, 528734635, 1541459225)
     [123, 34, 97, 117, 100, 105, 116, 73, 100, 34, 58, 34, 105, 100, 45, 49,
      34, 44, 34, 116, 105, 109, 101, 115, 116, 97, 109, 112, 34, 58, 34, 50,
      48, 50, 54, 45, 48, 49, 45, 49, 53, 84, 49, 48, 58, 48, 48, 58,
      48, 48, 46, 48, 48, 48, 90, 34, 44, 34, 116, 111, 111, 108, 34, 58]
   = (2812806996, 504825574, 4135868329, 2835890829, 4290932987, 2389260662, 896533026, 1545461236)"
  unfolding compress_def by (simp add: sha_eval del: round256.simps addState.simps)

lemma sample_block2:
  "compress (2812806996, 504825574, 4135868329, 2835890829, 4290932987, 2389260662, 896533026, 1545461236)
     [34, 102, 105, 110, 99, 116, 108, 34, 44, 34, 99, 111, 109, 109, 97, 110,
      100, 34, 58, 34, 105, 110, 99, 111, 109, 101, 34, 44, 34, 116, 111, 111,
      108, 86, 101, 114, 115, 105, 111, 110, 34, 58, 34, 48, 46, 49, 46, 48,
      34, 44, 34, 105, 110, 112, 117, 116, 115, 34, 58, 123, 125, 44, 34, 111]
   = (1836486885, 277745718, 1193582091, 1289681508, 757862726, 657519001, 3295290731, 2468312713)"
  unfolding compress_def by (simp add: sha_eval del: round256.simps addState.simps)

lemma sample_block3:
  "compress (1836486885, 277745718, 1193582091, 1289681508, 757862726, 657519001, 3295290731, 2468312713)
     [117, 116, 112, 117, 116, 115, 34, 58, 123, 125, 44, 34, 114, 97, 116, 105,
      111, 110, 97, 108, 101, 34, 58, 34, 84, 101, 115, 116, 34, 44, 34, 119,
      97, 114, 110, 105, 110, 103, 115, 34, 58, 91, 93, 44, 34, 99, 111, 109,
      112, 108, 105, 97, 110, 99, 101, 34, 58, 123, 34, 114, 101, 103, 117, 108]
   = (1727050486, 1492317251, 3303798610, 535523350, 3236817359, 4197236350, 1607589965, 3316897763)"
  unfolding compress_def by (simp add: sha_eval del: round256.simps addState.simps)

lemma sample_block4:
  "compress (1727050486, 1492317251, 3303798610, 535523350, 3236817359, 4197236350, 1607589965, 3316897763)
     [97, 116, 105, 111, 110, 115, 34, 58, 91, 93, 44, 34, 114, 105, 115, 107,
      70, 108, 97, 103, 115, 34, 58, 91, 93, 44, 34, 104, 117, 109, 97, 110,
      82, 101, 118, 105, 101, 119, 82, 101, 113, 117, 105, 114, 101, 100, 34, 58,
      102, 97, 108, 115, 101, 125, 44, 34, 111, 112, 101, 114, 97, 116, 111, 114]
   = (1220373520, 3790744163, 1351632501, 3695083892, 2861450609, 3986642255, 4212897796, 2489151279)"
  unfolding compress_def by (simp add: sha_eval del: round256.simps addState.simps)

lemma sample_block5:
  "compress (1220373520, 3790744163, 1351632501, 3695083892, 2861450609, 3986642255, 4212897796, 2489151279)
     [34, 58, 34, 116, 101, 115, 116, 45, 117, 115, 101, 114, 34, 125, 128, 0,
      0, 0, 0, 0, 0, 0, 0, 0, 0, 0, 0, 0, 0, 0, 0, 0,
      0, 0, 0, 0, 0, 0, 0, 0, 0, 0, 0, 0, 0, 0, 0, 0,
      0, 0, 0, 0, 0, 0, 0, 0, 0, 0, 0, 0, 0, 0, 8, 112]
   = (200022586, 2490487865, 2357668547, 3753955426, 1172550431, 1745906354, 536128214, 1589418105)"
  unfolding compress_def by (simp add: sha_eval del: round256.simps addState.simps)


lemma be_bytes_numeral:
  "be_bytes (numeral n) v = be_bytes (pred_numeral n) (v div 256) @ [v mod 256]"
  by (simp only: numeral_eq_Suc [of n] be_bytes.simps)

lemma replicate_numeral: "replicate (numeral n) x = x # replicate (pred_numeral n) x"
  by (simp only: numeral_eq_Suc [of n] replicate.simps)

lemma sampleLog_0:
  "sampleLog ! 0 = fst (log sampleLogger [] (sampleOptions ''finctl'' ''income'') ''id-1''
                         ''2026-01-15T10:00:00.000Z'')"
  by (simp add: sampleLog_fst sampleCalls_def case_prod_unfold Let_def)

lemmas content_eval = log_def Let_def hashContent_def complianceJson_def strings_def
  sampleLogger_def newAuditLogger_def sampleOptions_def getLastEntry_def
  spreadCompliance_def defaultComplianceInfo_def orElse_def quote_def escapeChar_def

lemma hex32_digits:
  "hex32 w =
     [digitChar (unat (drop_bit 28 w AND 15)), digitChar (unat (drop_bit 24 w AND 15)),
      digitChar (unat (drop_bit 20 w AND 15)), digitChar (unat (drop_bit 16 w AND 15)),
      digitChar (unat (drop_bit 12 w AND 15)), digitChar (unat (drop_bit 8 w AND 15)),
      digitChar (unat (drop_bit 4 w AND 15)), digitChar (unat (w AND 15))]"
  by (simp add: hex32_def upt_conv_Cons)

lemmas digest_eval = sha256_pad_def be_bytes_numeral replicate_numeral sha256_H0_def
  hex32_digits digitChar_def

lemma sample_hash:
  "computeEntryHash (sampleLog ! 0)
     = ''0bec1a3a9471d4398c872ac3dfc0d06245e3b31f68106ab21ff4aad65ebc9879''"
  unfolding computeEntryHash_def sha256_hex_def sha256_def
  by (simp add: sampleLog_0 content_eval digest_eval
      sample_block1 sample_block2 sample_block3 sample_block4 sample_block5)



section \<open>Decisions\<close>

lemma getProp_setProp: "getProp k (setProp k v kvs) = Some v"
  by (induction kvs) auto

lemma getProp_setProp_other: "k' \<noteq> k \<Longrightarrow> getProp k' (setProp k v kvs) = getProp k' kvs"
  by (induction kvs) auto

lemma logDecision_outputs:
  "outputs (fst (logDecision l st opts dec reasons u n)) =
     (if dec = Declined
      then setProp ''adverseActionReasons''
             (strings (case reasons of Some rs \<Rightarrow> rs | None \<Rightarrow> [''Unspecified reason'']))
             (setProp ''decision'' (JStr (decisionString dec)) (o_outputs opts))
      else setProp ''decision'' (JStr (decisionString dec)) (o_outputs opts))"
  by (simp add: logDecision_def Let_def log_fields)

lemma logDecision_regulations:
  "regulations (compliance (fst (logDecision l st opts dec reasons u n))) =
     (case o_compliance opts of None \<Rightarrow> [] | Some p \<Rightarrow>
        (case p_regulations p of None \<Rightarrow> [] | Some r \<Rightarrow> r)) @ [''ECOA'', ''Reg B'']"
  by (simp add: logDecision_def Let_def log_fields spreadCompliance_def)

lemma logDecision_review:
  "humanReviewRequired (compliance (fst (logDecision l st opts dec reasons u n))) =
     (dec = Declined \<or> (case o_compliance opts of None \<Rightarrow> False | Some p \<Rightarrow>
        (case p_humanReviewRequired p of None \<Rightarrow> False | Some b \<Rightarrow> b)))"
  by (simp add: logDecision_def Let_def log_fields spreadCompliance_def)

lemma logDecision_declined:
  "''ECOA'' \<in> set (regulations (compliance (fst (logDecision l st opts Declined reasons u n))))
   \<and> ''Reg B'' \<in> set (regulations (compliance (fst (logDecision l st opts Declined reasons u n))))
   \<and> humanReviewRequired (compliance (fst (logDecision l st opts Declined reasons u n)))
   \<and> getProp ''adverseActionReasons'' (outputs (fst (logDecision l st opts Declined reasons u n)))
       = Some (strings (case reasons of Some rs \<Rightarrow> rs | None \<Rightarrow> [''Unspecified reason'']))"
  by (simp add: logDecision_outputs logDecision_regulations logDecision_review getProp_setProp)

text \<open>
  C6. A declined decision with an empty list of decline reasons: the regulations and
  the review flag are set, but \<open>outputs.adverseActionReasons\<close> is the empty array,
  because an empty array is truthy and \<open>options.declineReasons || [...]\<close> keeps it.
\<close>

theorem logDecision_empty_reasons:
  "regulations (compliance (fst (logDecision sampleLogger [] (sampleOptions ''decctl'' ''decide'')
       Declined (Some []) ''id-1'' ''2026-01-15T10:00:00.000Z''))) = [''ECOA'', ''Reg B'']
   \<and> humanReviewRequired (compliance (fst (logDecision sampleLogger []
       (sampleOptions ''decctl'' ''decide'') Declined (Some []) ''id-1'' ''2026-01-15T10:00:00.000Z'')))
   \<and> getProp ''adverseActionReasons'' (outputs (fst (logDecision sampleLogger []
       (sampleOptions ''decctl'' ''decide'') Declined (Some []) ''id-1'' ''2026-01-15T10:00:00.000Z'')))
       = Some (JArr [])
   \<and> getProp ''adverseActionReasons'' (outputs (fst (logDecision sampleLogger []
       (sampleOptions ''decctl'' ''decide'') Declined None ''id-1'' ''2026-01-15T10:00:00.000Z'')))
       = Some (JArr [JStr ''Unspecified reason''])
   \<and> getProp ''adverseActionReasons'' (outputs (fst (logDecision sampleLogger []
       (sampleOptions ''decctl'' ''decide'') Declined (Some [''DTI too high''])
       ''id-1'' ''2026-01-15T10:00:00.000Z'')))
       = Some (JArr [JStr ''DTI too high''])"
  by (simp add: logDecision_outputs logDecision_regulations logDecision_review getProp_setProp
      sampleOptions_def strings_def)

section \<open>Sanitised inputs\<close>


lemma sanitizeInputs_keys:
  "map fst (sanitizeInputs kvs) = filter (\<lambda>k. k \<noteq> ''__proto__'') (map fst kvs)"
  by (induction kvs rule: sanitizeInputs.induct) (simp_all add: assignProp_def)






















section \<open>Reading the file\<close>

lemma readLine_foldl:
  "foldl (readLine parse) acc lines =
     (fst acc @ List.map_filter parse (filter (\<lambda>l. trim l \<noteq> []) lines),
      snd acc @ map (\<lambda>l. ''Warning: Invalid JSON line in audit log: '' @ l)
                  (filter (\<lambda>l. trim l \<noteq> [] \<and> parse l = None) lines))"
proof (induction lines arbitrary: acc)
  case Nil
  show ?case by (simp add: List.map_filter_simps)
next
  case (Cons l lines)
  show ?case
    by (simp only: foldl_Cons Cons.IH)
      (simp add: readLine_def List.map_filter_simps split: option.splits)
qed

lemma readAllEntries_Some:
  "readAllEntries parse (Some lines) =
     (List.map_filter parse (filter (\<lambda>l. trim l \<noteq> []) lines),
      map (\<lambda>l. ''Warning: Invalid JSON line in audit log: '' @ l)
        (filter (\<lambda>l. trim l \<noteq> [] \<and> parse l = None) lines))"
  by (simp add: readAllEntries_def readLine_foldl)

lemma map_filter_filter:
  "(\<And>x. x \<in> set xs \<Longrightarrow> \<not> P x \<Longrightarrow> f x = None)
     \<Longrightarrow> List.map_filter f (filter P xs) = List.map_filter f xs"
  by (induction xs) (auto split: option.splits)

lemma entries_parsed:
  assumes "\<forall>l\<in>set lines. trim l = [] \<longrightarrow> parse l = None"
  shows "fst (readAllEntries parse (Some lines)) = List.map_filter parse lines"
  unfolding readAllEntries_Some fst_conv
  by (rule map_filter_filter) (use assms in auto)

lemma entries_without_malformed:
  assumes "\<forall>l\<in>set lines. trim l = [] \<longrightarrow> parse l = None"
  shows "fst (readAllEntries parse (Some (filter (\<lambda>l. parse l \<noteq> None) lines)))
     = fst (readAllEntries parse (Some lines))"
proof -
  have "fst (readAllEntries parse (Some (filter (\<lambda>l. parse l \<noteq> None) lines)))
      = List.map_filter parse (filter (\<lambda>l. parse l \<noteq> None) lines)"
    using assms by (intro entries_parsed) simp
  also have "\<dots> = List.map_filter parse lines"
    by (rule map_filter_filter) simp
  finally show ?thesis using entries_parsed [OF assms] by simp
qed

text \<open>
  C9 (amended). \<open>readAllEntries\<close> returns the entries of the lines that are not blank
  and that parse, in the order of the file, and writes one warning for every line
  that is not blank and does not parse; a blank line is skipped without a warning.
  Since a blank line does not parse, the lines skipped are exactly the lines that do
  not parse, and the lines after a skipped line are still read. The results of
  \<open>query\<close>, \<open>count\<close> and \<open>verifyIntegrity\<close> are those for the file without the lines
  that do not parse. A file that does not exist has no entries.
\<close>

theorem readAllEntries_skips_malformed:
  "fst (readAllEntries parse (Some lines))
     = List.map_filter parse (filter (\<lambda>l. trim l \<noteq> []) lines)
   \<and> snd (readAllEntries parse (Some lines))
     = map (\<lambda>l. ''Warning: Invalid JSON line in audit log: '' @ l)
         (filter (\<lambda>l. trim l \<noteq> [] \<and> parse l = None) lines)
   \<and> readAllEntries parse None = ([], [])
   \<and> ((\<forall>l\<in>set lines. trim l = [] \<longrightarrow> parse l = None) \<longrightarrow>
        fst (readAllEntries parse (Some lines)) = List.map_filter parse lines
        \<and> queryFile getTime parse (Some lines) options
            = queryFile getTime parse (Some (filter (\<lambda>l. parse l \<noteq> None) lines)) options
        \<and> countFile getTime parse (Some lines) countOptions
            = countFile getTime parse (Some (filter (\<lambda>l. parse l \<noteq> None) lines)) countOptions
        \<and> verifyIntegrityFile getTime parse (Some lines) fromDate
            = verifyIntegrityFile getTime parse (Some (filter (\<lambda>l. parse l \<noteq> None) lines))
                fromDate)"
proof -
  have a: "fst (readAllEntries parse (Some lines))
      = List.map_filter parse (filter (\<lambda>l. trim l \<noteq> []) lines)"
    and b: "snd (readAllEntries parse (Some lines))
      = map (\<lambda>l. ''Warning: Invalid JSON line in audit log: '' @ l)
          (filter (\<lambda>l. trim l \<noteq> [] \<and> parse l = None) lines)"
    by (simp_all add: readAllEntries_Some)
  have c: "readAllEntries parse None = ([], [])"
    by (simp add: readAllEntries_def)
  have d: "fst (readAllEntries parse (Some lines)) = List.map_filter parse lines
        \<and> queryFile getTime parse (Some lines) options
            = queryFile getTime parse (Some (filter (\<lambda>l. parse l \<noteq> None) lines)) options
        \<and> countFile getTime parse (Some lines) countOptions
            = countFile getTime parse (Some (filter (\<lambda>l. parse l \<noteq> None) lines)) countOptions
        \<and> verifyIntegrityFile getTime parse (Some lines) fromDate
            = verifyIntegrityFile getTime parse (Some (filter (\<lambda>l. parse l \<noteq> None) lines))
                fromDate"
    if h: "\<forall>l\<in>set lines. trim l = [] \<longrightarrow> parse l = None"
    using entries_parsed [OF h] entries_without_malformed [OF h]
    by (simp add: queryFile_def countFile_def verifyIntegrityFile_def split: option.splits)
  from a b c d show ?thesis by blast
qed

lemma sampleLine_first: "appendLine (sampleLog ! 0) [] = [sampleLine]"
proof -
  have h: "entryHash (sampleLog ! 0)
      = Some ''0bec1a3a9471d4398c872ac3dfc0d06245e3b31f68106ab21ff4aad65ebc9879''"
    by (simp add: sampleLog_hash sample_hash)
  have "entryJson (sampleLog ! 0) = entryJson ((sampleLog ! 0)\<lparr>entryHash :=
      Some ''0bec1a3a9471d4398c872ac3dfc0d06245e3b31f68106ab21ff4aad65ebc9879''\<rparr>)"
    using h by (metis AuditEntry.surjective AuditEntry.update_convs(17))
  also have "\<dots> = JObj
     [(''auditId'', JStr ''id-1''),
      (''timestamp'', JStr ''2026-01-15T10:00:00.000Z''),
      (''tool'', JStr ''finctl''),
      (''command'', JStr ''income''),
      (''toolVersion'', JStr ''0.1.0''),
      (''inputs'', JObj []),
      (''outputs'', JObj []),
      (''rationale'', JStr ''Test''),
      (''warnings'', JArr []),
      (''compliance'', JObj [(''regulations'', JArr []), (''riskFlags'', JArr []),
                             (''humanReviewRequired'', JBool False)]),
      (''operator'', JStr ''test-user''),
      (''entryHash'', JStr ''0bec1a3a9471d4398c872ac3dfc0d06245e3b31f68106ab21ff4aad65ebc9879'')]"
    by (simp add: entryJson_def sampleLog_0 log_def Let_def complianceJson_def strings_def
        sampleLogger_def newAuditLogger_def sampleOptions_def getLastEntry_def
        spreadCompliance_def defaultComplianceInfo_def orElse_def)
  finally show ?thesis by (simp add: appendLine_def sampleLine_def)
qed

lemma sampleLine_facts:
  "trim sampleLine \<noteq> []" "''not json'' \<noteq> sampleLine" "[] \<noteq> sampleLine"
  "trim ''not json'' \<noteq> []" "trim [] = []" "trim ''   '' = []" "''   '' \<noteq> sampleLine"
  by code_simp+

lemma sampleParse_lines:
  "sampleParse sampleLine = Some (sampleLog ! 0)" "sampleParse ''not json'' = None"
  "sampleParse [] = None" "sampleParse ''   '' = None"
  by (simp_all add: sampleParse_def sampleLine_facts)

text \<open>
  A file with the line of the first sample entry, a line that is not JSON and an
  empty line.
\<close>

theorem readAllEntries_skips_malformed_witness:
  "readAllEntries sampleParse (Some [sampleLine, ''not json'', ''''])
     = ([sampleLog ! 0], [''Warning: Invalid JSON line in audit log: not json''])
   \<and> countFile sampleTime sampleParse (Some [sampleLine, ''not json'', '''']) None = 1
   \<and> verifyIntegrityFile sampleTime sampleParse (Some [sampleLine, ''not json'', '''']) None
     = verifyIntegrityFile sampleTime sampleParse (Some [sampleLine]) None"
proof -
  let ?ls = "[sampleLine, ''not json'', '''']"
  have hyp: "\<forall>l\<in>set ?ls. trim l = [] \<longrightarrow> sampleParse l = None"
    by (simp add: sampleParse_lines sampleLine_facts)
  note t = readAllEntries_skips_malformed [where parse = sampleParse and lines = ?ls
      and getTime = sampleTime and countOptions = None and fromDate = None]
  from t have "fst (readAllEntries sampleParse (Some ?ls))
      = List.map_filter sampleParse (filter (\<lambda>l. trim l \<noteq> []) ?ls)"
    and "snd (readAllEntries sampleParse (Some ?ls))
      = map (\<lambda>l. ''Warning: Invalid JSON line in audit log: '' @ l)
          (filter (\<lambda>l. trim l \<noteq> [] \<and> sampleParse l = None) ?ls)"
    by blast+
  then have r: "readAllEntries sampleParse (Some ?ls)
      = ([sampleLog ! 0], [''Warning: Invalid JSON line in audit log: not json''])"
    by (simp add: prod_eq_iff sampleParse_lines sampleLine_facts)
  from t hyp have "countFile sampleTime sampleParse (Some ?ls) None
        = countFile sampleTime sampleParse
            (Some (filter (\<lambda>l. sampleParse l \<noteq> None) ?ls)) None"
    and "verifyIntegrityFile sampleTime sampleParse (Some ?ls) None
        = verifyIntegrityFile sampleTime sampleParse
            (Some (filter (\<lambda>l. sampleParse l \<noteq> None) ?ls)) None"
    by blast+
  then have c: "countFile sampleTime sampleParse (Some ?ls) None
        = countFile sampleTime sampleParse (Some [sampleLine]) None"
    and v: "verifyIntegrityFile sampleTime sampleParse (Some ?ls) None
        = verifyIntegrityFile sampleTime sampleParse (Some [sampleLine]) None"
    by (simp_all add: sampleParse_lines)
  have "countFile sampleTime sampleParse (Some [sampleLine]) None = 1"
    by (simp add: countFile_def readAllEntries_Some sampleParse_lines sampleLine_facts)
  with r c v show ?thesis by simp
qed

text \<open>
  A file with the line of the first sample entry, an empty line and a line of three
  spaces: the two blank lines do not parse and are skipped, and no warning is
  written.
\<close>

theorem readAllEntries_skips_malformed_counterexample:
  "sampleParse '''' = None \<and> sampleParse ''   '' = None
   \<and> readAllEntries sampleParse (Some [sampleLine, '''', ''   '']) = ([sampleLog ! 0], [])"
  by (simp add: readAllEntries_Some sampleParse_lines sampleLine_facts)

section \<open>Queries\<close>












end
